theory Spec2Isabelle
  imports Main
begin

section \<open>Text\<close>

text \<open>
  The script works on JavaScript strings. They are modelled as \<^typ>\<open>string\<close>, each
  \<^typ>\<open>char\<close> standing for one code unit in the range U+0000 to U+00FF (Latin-1).
  The white space that \<^verbatim>\<open>String.prototype.trim\<close> removes in that range is TAB, LF,
  VT, FF, CR, SPACE and NBSP; the line terminators of a regular expression in that
  range are LF and CR.
\<close>

definition is_js_space :: "char \<Rightarrow> bool" where
  "is_js_space c \<longleftrightarrow> of_char c \<in> {9::nat, 10, 11, 12, 13, 32, 160}"

definition is_line_terminator :: "char \<Rightarrow> bool" where
  "is_line_terminator c \<longleftrightarrow> of_char c \<in> {10::nat, 13}"

definition trim :: "string \<Rightarrow> string" where
  "trim s = rev (dropWhile is_js_space (rev (dropWhile is_js_space s)))"

text \<open>\<^verbatim>\<open>toLowerCase\<close> on one code unit of the Latin-1 range: A to Z, and the
  accented capitals U+00C0 to U+00DE without the multiplication sign U+00D7.\<close>

definition lower_char :: "char \<Rightarrow> char" where
  "lower_char c =
     (let n = (of_char c :: nat)
      in if (65 \<le> n \<and> n \<le> 90) \<or> (192 \<le> n \<and> n \<le> 222 \<and> n \<noteq> 215)
         then char_of (n + 32) else c)"

definition toLowerCase :: "string \<Rightarrow> string" where
  "toLowerCase s = map lower_char s"

text \<open>\<^verbatim>\<open>s.includes(w)\<close>: \<open>w\<close> occurs in \<open>s\<close> as a contiguous substring.\<close>

fun str_includes :: "string \<Rightarrow> string \<Rightarrow> bool" where
  "str_includes [] w = (w = [])"
| "str_includes (c # cs) w = (take (length w) (c # cs) = w \<or> str_includes cs w)"

subsection \<open>Splitting the buffer at blank lines\<close>

text \<open>
  \<^verbatim>\<open>buffer.split('\n\n')\<close> scans from the left; every occurrence of the separator
  found after the previous one ends a piece. The result always has at least one piece:
  the text after the last separator (the whole text when there is none).
\<close>

fun push_front :: "char \<Rightarrow> string list \<Rightarrow> string list" where
  "push_front c [] = [[c]]"
| "push_front c (x # xs) = (c # x) # xs"

fun split_nn :: "string \<Rightarrow> string list" where
  "split_nn (a # b # cs) =
     (if a = CHR 0x0A \<and> b = CHR 0x0A then [] # split_nn cs
      else push_front a (split_nn (b # cs)))"
| "split_nn cs = [cs]"

subsection \<open>The two regular expressions\<close>

text \<open>
  \<^verbatim>\<open>line.match(/^event: (.+)$/m)\<close> and \<^verbatim>\<open>line.match(/^data: (.+)$/m)\<close>. With the
  \<^verbatim>\<open>m\<close> flag \<^verbatim>\<open>^\<close> matches at the start of the text and after every line
  terminator, \<^verbatim>\<open>.\<close> matches any character but a line terminator, and \<^verbatim>\<open>$\<close>
  matches before a line terminator and at the end. The greedy \<^verbatim>\<open>.+\<close> therefore
  takes the rest of its line, and the match is the first line that starts with the
  prefix and has at least one more character. \<open>js_lines\<close> cuts a text at every line
  terminator; \<open>match_prefix\<close> returns the capture group, \<open>None\<close> for \<^verbatim>\<open>null\<close>.
\<close>

fun js_lines :: "string \<Rightarrow> string list" where
  "js_lines [] = [[]]"
| "js_lines (c # cs) =
     (if is_line_terminator c then [] # js_lines cs else push_front c (js_lines cs))"

fun first_with_prefix :: "string \<Rightarrow> string list \<Rightarrow> string option" where
  "first_with_prefix p [] = None"
| "first_with_prefix p (l # ls) =
     (if take (length p) l = p \<and> drop (length p) l \<noteq> [] then Some (drop (length p) l)
      else first_with_prefix p ls)"

definition match_prefix :: "string \<Rightarrow> string \<Rightarrow> string option" where
  "match_prefix p line = first_with_prefix p (js_lines line)"


section \<open>JSON values and the JavaScript operations on them\<close>

text \<open>
  What \<^verbatim>\<open>JSON.parse\<close> and \<^verbatim>\<open>response.json()\<close> return. A number is kept as its
  rendering by \<^verbatim>\<open>Number.prototype.toString\<close> (\<open>''0''\<close>, \<open>''1.5''\<close>, \<open>''-3''\<close>,
  \<open>''1e+21''\<close>, \<open>''Infinity''\<close>), which is all the script can observe of it. An object
  is the list of its own properties, the first entry for a name being the property.
  A value that may be \<^verbatim>\<open>undefined\<close> is a \<open>json option\<close>, with \<open>None\<close> for
  \<^verbatim>\<open>undefined\<close>.
\<close>

datatype json =
    JNull
  | JBool bool
  | JNum string
  | JStr string
  | JArr "json list"
  | JObj "(string \<times> json) list"

type_synonym jsval = "json option"

datatype exn = SyntaxError | TypeError | NetworkError | FailedToStart

text \<open>
  The functions of the JavaScript platform that the script calls and whose results
  the model does not compute are parameters:
  \<^item> \<open>JSON_parse\<close>: \<^verbatim>\<open>JSON.parse\<close>, \<open>None\<close> when it throws a SyntaxError;
  \<^item> \<open>StringToNumber_gt0\<close>: whether a string, converted to a number, is greater than 0.
\<close>

record builtins =
  JSON_parse :: "string \<Rightarrow> json option"
  StringToNumber_gt0 :: "string \<Rightarrow> bool"

text \<open>
  Reading a property, for the property names the script reads as data (none of them is
  a member of a built-in prototype): \<^verbatim>\<open>null\<close> and \<^verbatim>\<open>undefined\<close> throw a TypeError, an
  object gives its own property or \<^verbatim>\<open>undefined\<close>, every other value gives
  \<^verbatim>\<open>undefined\<close>.
\<close>

fun get :: "json \<Rightarrow> string \<Rightarrow> exn + jsval" where
  "get JNull k = Inl TypeError"
| "get (JObj kvs) k = Inr (map_of kvs k)"
| "get v k = Inr None"

fun get_val :: "jsval \<Rightarrow> string \<Rightarrow> exn + jsval" where
  "get_val None k = Inl TypeError"
| "get_val (Some v) k = get v k"

text \<open>Truthiness (\<^verbatim>\<open>ToBoolean\<close>).\<close>

fun truthy :: "jsval \<Rightarrow> bool" where
  "truthy None = False"
| "truthy (Some JNull) = False"
| "truthy (Some (JBool b)) = b"
| "truthy (Some (JNum n)) = (n \<noteq> ''0'' \<and> n \<noteq> ''NaN'')"
| "truthy (Some (JStr s)) = (s \<noteq> [])"
| "truthy (Some (JArr xs)) = True"
| "truthy (Some (JObj kvs)) = True"

text \<open>
  \<^verbatim>\<open>ToString\<close>, as a template literal applies it; \<open>None\<close> when it throws a TypeError.
  An array is joined with commas, \<^verbatim>\<open>null\<close> elements giving the empty string. A parsed
  object has no callable \<^verbatim>\<open>toString\<close> of its own; with an own property of that name
  the conversion finds no primitive and throws, otherwise \<^verbatim>\<open>Object.prototype.toString\<close>
  answers.
\<close>

fun join_comma :: "string list \<Rightarrow> string" where
  "join_comma [] = []"
| "join_comma [x] = x"
| "join_comma (x # y # ys) = x @ '','' @ join_comma (y # ys)"

fun to_string :: "json \<Rightarrow> string option" where
  "to_string JNull = Some ''null''"
| "to_string (JBool b) = Some (if b then ''true'' else ''false'')"
| "to_string (JNum n) = Some n"
| "to_string (JStr s) = Some s"
| "to_string (JArr xs) =
     map_option join_comma
       (those (map (\<lambda>x. if x = JNull then Some [] else to_string x) xs))"
| "to_string (JObj kvs) =
     (if ''toString'' \<in> fst ` set kvs then None else Some ''[object Object]'')"

fun to_string_val :: "jsval \<Rightarrow> string option" where
  "to_string_val None = Some ''undefined''"
| "to_string_val (Some v) = to_string v"

text \<open>Assigning to \<^verbatim>\<open>textContent\<close>: \<^verbatim>\<open>null\<close> and \<^verbatim>\<open>undefined\<close> give the empty text,
  every other value is converted with \<^verbatim>\<open>ToString\<close>.\<close>

fun text_content :: "jsval \<Rightarrow> string option" where
  "text_content None = Some []"
| "text_content (Some JNull) = Some []"
| "text_content (Some v) = to_string v"

text \<open>\<^verbatim>\<open>x > 0\<close>; \<open>Inl\<close> when the conversion of \<open>x\<close> to a primitive throws.\<close>

definition num_gt0 :: "string \<Rightarrow> bool" where
  "num_gt0 n \<longleftrightarrow> n \<noteq> ''0'' \<and> n \<noteq> ''NaN'' \<and> take 1 n \<noteq> ''-''"

fun gt_zero :: "builtins \<Rightarrow> jsval \<Rightarrow> exn + bool" where
  "gt_zero bi None = Inr False"
| "gt_zero bi (Some JNull) = Inr False"
| "gt_zero bi (Some (JBool b)) = Inr b"
| "gt_zero bi (Some (JNum n)) = Inr (num_gt0 n)"
| "gt_zero bi (Some (JStr s)) = Inr (StringToNumber_gt0 bi s)"
| "gt_zero bi (Some v) =
     (case to_string v of None \<Rightarrow> Inl TypeError
      | Some s \<Rightarrow> Inr (StringToNumber_gt0 bi s))"

text \<open>\<^verbatim>\<open>x.length > 0\<close> for a truthy \<open>x\<close>.\<close>

fun length_gt0 :: "builtins \<Rightarrow> json \<Rightarrow> exn + bool" where
  "length_gt0 bi JNull = Inl TypeError"
| "length_gt0 bi (JArr xs) = Inr (xs \<noteq> [])"
| "length_gt0 bi (JStr s) = Inr (s \<noteq> [])"
| "length_gt0 bi (JObj kvs) = gt_zero bi (map_of kvs ''length'')"
| "length_gt0 bi v = Inr False"


section \<open>The page\<close>

text \<open>
  The state the script reads and writes: the elements it looks up by id, the global
  \<^verbatim>\<open>window.stockChartInstance\<close>, the console, and the requests it has sent. An element's
  content is kept as the data the script renders into it, not as markup. The elements
  the script dereferences without a test exist; \<^verbatim>\<open>stockChart\<close> and the
  \<^verbatim>\<open>step-...\<close> elements, which it tests, may be missing.

  The canvas has an identity. \<^verbatim>\<open>loadChart\<close> looks the canvas up before its first
  \<^verbatim>\<open>await\<close> and keeps the element; \<^verbatim>\<open>canvas.parentElement.innerHTML += ...\<close>
  parses the parent's markup anew, so the canvas in the document is from then on another
  element (with the inline style of the old one), and the element a pending
  \<^verbatim>\<open>loadChart\<close> holds has no parent any more. \<open>stockChart\<close> is the number of the
  canvas in the document, \<open>None\<close> when there is none; \<open>canvas_display\<close> is the
  \<^verbatim>\<open>style.display\<close> of that canvas. The parent of the canvas holds, besides the canvas
  and the placeholders, no element the script looks up.
\<close>

datatype display = display_initial | display_none | display_block

text \<open>Of a stepper element's class list, the two classes the script adds and removes.\<close>

record step_classes =
  cls_active :: bool
  cls_completed :: bool

record log_entry =
  log_time :: jsval
  log_agent :: string
  log_action :: string
  log_details :: "string option"

record fact_check_view =
  fc_verified :: bool
  fc_claim :: string
  fc_evidence :: string
  fc_source :: "string option"

record verification_view =
  ver_verified :: bool
  ver_issues :: string
  ver_checks :: "fact_check_view list"

record chart_view =
  chart_canvas :: nat
  chart_label :: string
  chart_labels :: jsval
  chart_prices :: jsval

record history_item_view =
  h_id :: jsval
  h_company :: string
  h_recommendation :: string
  h_query :: string
  h_date :: jsval

datatype history_list =
    HistoryMarkup
  | HistoryLoading
  | HistoryItems "history_item_view list"
  | HistoryNone
  | HistoryFailed

datatype request =
    PostResearch string
  | GetChart string
  | GetHistory
  | GetHistoryItem string

record page =
  queryInput :: string
  progressSection :: display
  resultsSection :: display
  errorSection :: display
  activitySection :: display
  activityLogContent :: "log_entry list"
  steps :: "string \<rightharpoonup> step_classes"
  errorMessage :: string
  btn_disabled :: bool
  btn_text :: string
  stockName :: string
  badge_text :: string
  badge_class :: string
  metricsGrid :: "string \<times> string"
  recommendationText :: string
  reportMarkdown :: string
  followUpQuestions :: "string list"
  verificationContent :: "verification_view option"
  stockChart :: "nat option"
  canvas_display :: display
  chart_placeholders :: nat
  stockChartInstance :: "chart_view option"
  historySidebar_open :: bool
  historyList :: history_list
  console :: "string list"
  fetches :: "request list"

text \<open>
  A statement of the script: it takes the page to the page it leaves and says whether
  it threw. \<open>seq\<close> runs two statements in order; an exception in the first skips the
  second.
\<close>

type_synonym stmt = "page \<Rightarrow> page \<times> exn option"

definition seq :: "stmt \<Rightarrow> stmt \<Rightarrow> stmt" where
  "seq f g p = (case f p of (p', None) \<Rightarrow> g p' | (p', Some e) \<Rightarrow> (p', Some e))"

definition throw :: "exn \<Rightarrow> stmt" where
  "throw e p = (p, Some e)"

definition assign :: "(page \<Rightarrow> page) \<Rightarrow> stmt" where
  "assign f p = (f p, None)"

section \<open>The functions of the script\<close>

subsection \<open>\<^verbatim>\<open>updateProgress\<close>\<close>

text \<open>
  The element is looked up by the id \<^verbatim>\<open>step-${stage}\<close>; \<open>steps\<close> is keyed by the
  part of the id after \<^verbatim>\<open>step-\<close>. The parameter \<^verbatim>\<open>isDone\<close> defaults to
  \<^verbatim>\<open>false\<close> when \<^verbatim>\<open>undefined\<close> is passed, which is falsy either way.
\<close>

definition mark :: "bool \<Rightarrow> step_classes \<Rightarrow> step_classes" where
  "mark isDone c =
     (if isDone then c\<lparr>cls_completed := True, cls_active := False\<rparr>
      else c\<lparr>cls_active := True\<rparr>)"

definition updateProgress :: "jsval \<Rightarrow> jsval \<Rightarrow> stmt" where
  "updateProgress stage isDone p =
     (case to_string_val stage of
        None \<Rightarrow> (p, Some TypeError)
      | Some name \<Rightarrow>
          (case steps p name of
             None \<Rightarrow> (p, None)
           | Some c \<Rightarrow> (p\<lparr>steps := (steps p)(name \<mapsto> mark (truthy isDone) c)\<rparr>, None)))"

subsection \<open>\<^verbatim>\<open>addActivityLog\<close>\<close>

text \<open>
  Everything that can throw comes before the entry is appended: reading a property of
  \<^verbatim>\<open>null\<close>, \<^verbatim>\<open>new Date\<close> on a value with no primitive, \<^verbatim>\<open>toLowerCase\<close> on
  an agent that is not a string, and the two template conversions.
\<close>

definition addActivityLog :: "json \<Rightarrow> stmt" where
  "addActivityLog data p =
     (case (get data ''timestamp'', get data ''agent'', get data ''details'',
            get data ''action'') of
        (Inr ts, Inr (Some (JStr agent)), Inr details, Inr action) \<Rightarrow>
          (case (to_string_val ts, to_string_val action,
                 if truthy details then map_option Some (to_string_val details)
                 else Some None) of
             (Some _, Some act, Some det) \<Rightarrow>
               (p\<lparr>activityLogContent := activityLogContent p @
                    [\<lparr>log_time = ts, log_agent = agent, log_action = act,
                      log_details = det\<rparr>]\<rparr>, None)
           | _ \<Rightarrow> (p, Some TypeError))
      | _ \<Rightarrow> (p, Some TypeError))"

subsection \<open>\<^verbatim>\<open>showError\<close> and \<^verbatim>\<open>resetUI\<close>\<close>

definition showError :: "jsval \<Rightarrow> stmt" where
  "showError message p =
     (case text_content message of
        None \<Rightarrow> (p, Some TypeError)
      | Some m \<Rightarrow> (p\<lparr>errorMessage := m, errorSection := display_block\<rparr>, None))"

definition stage_names :: "string list" where
  "stage_names = [''planning'', ''searching'', ''writing'', ''verifying'']"

definition reset_step :: "string \<Rightarrow> page \<Rightarrow> page" where
  "reset_step stage p =
     (case steps p stage of
        None \<Rightarrow> p
      | Some c \<Rightarrow> p\<lparr>steps := (steps p)(stage \<mapsto> c\<lparr>cls_active := False, cls_completed := False\<rparr>)\<rparr>)"

definition resetUI :: "page \<Rightarrow> page" where
  "resetUI p =
     (let p1 = p\<lparr>progressSection := display_none, resultsSection := display_none,
                 errorSection := display_none, activitySection := display_none,
                 activityLogContent := []\<rparr>;
          p2 = fold reset_step stage_names p1
      in p2\<lparr>btn_disabled := False, btn_text := ''Analyze'', stockChartInstance := None\<rparr>)"


subsection \<open>\<^verbatim>\<open>extractCompanyName\<close>\<close>

definition companies :: "string list" where
  "companies = [''amazon'', ''apple'', ''google'', ''microsoft'', ''tesla'', ''meta'', ''nvidia'']"

text \<open>\<^verbatim>\<open>company.charAt(0).toUpperCase() + company.slice(1)\<close>; the names it is applied
  to start with a letter from a to z.\<close>

definition capitalize :: "string \<Rightarrow> string" where
  "capitalize w =
     (case w of [] \<Rightarrow> []
      | c # cs \<Rightarrow>
          (if 97 \<le> (of_char c :: nat) \<and> (of_char c :: nat) \<le> 122
           then char_of ((of_char c :: nat) - 32) else c) # cs)"

fun first_company :: "string \<Rightarrow> string list \<Rightarrow> string" where
  "first_company q [] = ''Company''"
| "first_company q (company # rest) =
     (if str_includes q company then capitalize company else first_company q rest)"

definition extractCompanyName :: "string \<Rightarrow> string" where
  "extractCompanyName query = first_company (toLowerCase query) companies"

subsection \<open>\<^verbatim>\<open>displayResults\<close>\<close>

text \<open>The recommendation badge: its text and its class, from the lowercased summary.\<close>

definition recommendation :: "string \<Rightarrow> string \<times> string" where
  "recommendation summary =
     (if str_includes summary ''buy'' \<or> str_includes summary ''strong''
         \<or> str_includes summary ''positive''
      then (''Buy'', ''recommendation-badge buy'')
      else if str_includes summary ''sell'' \<or> str_includes summary ''negative''
         \<or> str_includes summary ''avoid''
      then (''Sell'', ''recommendation-badge sell'')
      else (''Hold'', ''recommendation-badge hold''))"

text \<open>
  The function is the sequence of its parts, in the order of the source. A part that
  throws leaves the page as the earlier parts made it. \<^verbatim>\<open>markdownToHtml\<close> throws
  exactly when its argument is not a string; the report region is kept as the markdown
  text it is rendered from.
\<close>

definition show_results :: stmt where
  "show_results = assign (\<lambda>p. p\<lparr>resultsSection := display_block\<rparr>)"

definition set_company :: "json \<Rightarrow> stmt" where
  "set_company data p =
     (case get data ''short_summary'' of
        Inr (Some (JStr s)) \<Rightarrow> (p\<lparr>stockName := extractCompanyName s\<rparr>, None)
      | _ \<Rightarrow> (p, Some TypeError))"

definition set_badge :: "json \<Rightarrow> stmt" where
  "set_badge data p =
     (case get data ''short_summary'' of
        Inr (Some (JStr s)) \<Rightarrow>
          (p\<lparr>badge_text := fst (recommendation (toLowerCase s)),
             badge_class := snd (recommendation (toLowerCase s))\<rparr>, None)
      | _ \<Rightarrow> (p, Some TypeError))"

definition set_metrics :: "json \<Rightarrow> stmt" where
  "set_metrics data p =
     (case get data ''verification'' of
        Inl e \<Rightarrow> (p, Some e)
      | Inr ver \<Rightarrow>
          (case get_val ver ''verified'' of
             Inl e \<Rightarrow> (p, Some e)
           | Inr v \<Rightarrow>
               (p\<lparr>metricsGrid := (if truthy v then ''Yes'' else ''No'', badge_text p)\<rparr>,
                None)))"

definition set_recommendation_text :: "json \<Rightarrow> stmt" where
  "set_recommendation_text data p =
     (case get data ''short_summary'' of
        Inl e \<Rightarrow> (p, Some e)
      | Inr v \<Rightarrow>
          (case text_content v of
             None \<Rightarrow> (p, Some TypeError)
           | Some t \<Rightarrow> (p\<lparr>recommendationText := t\<rparr>, None)))"

definition set_report :: "json \<Rightarrow> stmt" where
  "set_report data p =
     (case get data ''markdown_report'' of
        Inr (Some (JStr md)) \<Rightarrow> (p\<lparr>reportMarkdown := md\<rparr>, None)
      | _ \<Rightarrow> (p, Some TypeError))"

fun append_questions :: "json list \<Rightarrow> stmt" where
  "append_questions [] p = (p, None)"
| "append_questions (q # qs) p =
     (case text_content (Some q) of
        None \<Rightarrow> (p, Some TypeError)
      | Some t \<Rightarrow> append_questions qs (p\<lparr>followUpQuestions := followUpQuestions p @ [t]\<rparr>))"

definition set_questions :: "json \<Rightarrow> stmt" where
  "set_questions data =
     seq (assign (\<lambda>p. p\<lparr>followUpQuestions := []\<rparr>))
       (\<lambda>p. case get data ''follow_up_questions'' of
               Inr (Some (JArr qs)) \<Rightarrow> append_questions qs p
             | _ \<Rightarrow> (p, Some TypeError))"

definition check_view :: "json \<Rightarrow> exn + fact_check_view" where
  "check_view check =
     (case (get check ''verified'', get check ''claim'', get check ''evidence'',
            get check ''source_url'') of
        (Inr v, Inr c, Inr e, Inr u) \<Rightarrow>
          (case (to_string_val c, to_string_val e,
                 if truthy u then map_option Some (to_string_val u) else Some None) of
             (Some c', Some e', Some u') \<Rightarrow>
               Inr \<lparr>fc_verified = truthy v, fc_claim = c', fc_evidence = e',
                    fc_source = u'\<rparr>
           | _ \<Rightarrow> Inl TypeError)
      | _ \<Rightarrow> Inl TypeError)"

fun check_views :: "json list \<Rightarrow> exn + fact_check_view list" where
  "check_views [] = Inr []"
| "check_views (c # cs) =
     (case check_view c of
        Inl e \<Rightarrow> Inl e
      | Inr v \<Rightarrow> (case check_views cs of Inl e \<Rightarrow> Inl e | Inr vs \<Rightarrow> Inr (v # vs)))"

text \<open>The fact checks rendered into the panel: none unless
  \<^verbatim>\<open>fact_checks && fact_checks.length > 0\<close>; then \<^verbatim>\<open>forEach\<close> needs an array.\<close>

definition fact_checks_html :: "builtins \<Rightarrow> jsval \<Rightarrow> exn + fact_check_view list" where
  "fact_checks_html bi fc =
     (case fc of
        None \<Rightarrow> Inr []
      | Some v \<Rightarrow>
          if \<not> truthy fc then Inr []
          else (case length_gt0 bi v of
                  Inl e \<Rightarrow> Inl e
                | Inr False \<Rightarrow> Inr []
                | Inr True \<Rightarrow> (case v of JArr cs \<Rightarrow> check_views cs | _ \<Rightarrow> Inl TypeError)))"

definition set_verification :: "builtins \<Rightarrow> json \<Rightarrow> stmt" where
  "set_verification bi data p =
     (case get data ''verification'' of
        Inl e \<Rightarrow> (p, Some e)
      | Inr ver \<Rightarrow>
          (case get_val ver ''fact_checks'' of
             Inl e \<Rightarrow> (p, Some e)
           | Inr fc \<Rightarrow>
               (case fact_checks_html bi fc of
                  Inl e \<Rightarrow> (p, Some e)
                | Inr checks \<Rightarrow>
                    (case (get_val ver ''verified'', get_val ver ''issues'') of
                       (Inr v, Inr iss) \<Rightarrow>
                         (case to_string_val iss of
                            None \<Rightarrow> (p, Some TypeError)
                          | Some i \<Rightarrow>
                              (p\<lparr>verificationContent :=
                                   Some \<lparr>ver_verified = truthy v, ver_issues = i,
                                         ver_checks = checks\<rparr>\<rparr>, None))
                     | _ \<Rightarrow> (p, Some TypeError)))))"

definition displayResults :: "builtins \<Rightarrow> json \<Rightarrow> stmt" where
  "displayResults bi data =
     seq show_results
    (seq (set_company data)
    (seq (set_badge data)
    (seq (set_metrics data)
    (seq (set_recommendation_text data)
    (seq (set_report data)
    (seq (set_questions data)
         (set_verification bi data)))))))"


subsection \<open>The side-channel loaders\<close>

text \<open>
  What comes back for a \<^verbatim>\<open>fetch\<close>: the promise rejects, or a response arrives with
  its \<^verbatim>\<open>ok\<close> flag and a body that \<^verbatim>\<open>response.json()\<close> parses (\<open>None\<close> when it
  rejects). Each loader is an asynchronous function; it is modelled as the part that
  runs when it is called, up to the request, and the part that runs on the reply.
\<close>

datatype reply = Rejected | Response bool "json option"

definition log_console :: "string \<Rightarrow> page \<Rightarrow> page" where
  "log_console m p = p\<lparr>console := console p @ [m]\<rparr>"

definition loadChart_call :: "string \<Rightarrow> page \<Rightarrow> page" where
  "loadChart_call query p =
     (if stockChart p = None then p
      else p\<lparr>stockChartInstance := None, fetches := fetches p @ [GetChart query]\<rparr>)"

text \<open>
  The part of \<^verbatim>\<open>loadChart\<close> after the request, for the canvas \<open>c\<close> it looked up
  when it was called. \<open>chart_fails\<close> says whether the Chart.js constructor throws; the
  answer is the library's and is given with the reply. While \<open>c\<close> is the canvas in the
  document, \<^verbatim>\<open>canvas.style.display\<close> is what the page shows and the placeholder is
  added to its parent, which replaces the canvas. Once \<open>c\<close> is detached, its style is
  not on the page and \<^verbatim>\<open>canvas.parentElement\<close> is \<^verbatim>\<open>null\<close>, so the line that adds
  the placeholder throws a TypeError.
\<close>

definition show_canvas :: "nat \<Rightarrow> display \<Rightarrow> page \<Rightarrow> page" where
  "show_canvas c d p = (if stockChart p = Some c then p\<lparr>canvas_display := d\<rparr> else p)"

definition loadChart_try :: "nat \<Rightarrow> reply \<Rightarrow> bool \<Rightarrow> stmt" where
  "loadChart_try c r chart_fails p =
     (case r of
        Rejected \<Rightarrow> (p, Some NetworkError)
      | Response ok body \<Rightarrow>
          if \<not> ok
          then (let p1 = show_canvas c display_none (log_console ''No chart data available'' p)
                in if stockChart p1 = Some c
                   then (p1\<lparr>chart_placeholders := Suc (chart_placeholders p1),
                            stockChart := Some (Suc c)\<rparr>, None)
                   else (p1, Some TypeError))
          else (case body of
                  None \<Rightarrow> (p, Some SyntaxError)
                | Some data \<Rightarrow>
                    (case get data ''error'' of
                       Inl e \<Rightarrow> (p, Some e)
                     | Inr err \<Rightarrow>
                         if truthy err then (log_console ''Chart error:'' p, None)
                         else
                           (let p1 = show_canvas c display_block p
                            in case (get data ''labels'', get data ''symbol'',
                                     get data ''prices'') of
                                 (Inr ls, Inr symb, Inr ps) \<Rightarrow>
                                   (case to_string_val symb of
                                      None \<Rightarrow> (p1, Some TypeError)
                                    | Some sy \<Rightarrow>
                                        if chart_fails
                                        then (p1, Some TypeError)
                                        else (p1\<lparr>stockChartInstance :=
                                                Some \<lparr>chart_canvas = c,
                                                      chart_label = sy @ '' Price'',
                                                      chart_labels = ls,
                                                      chart_prices = ps\<rparr>\<rparr>, None))
                               | _ \<Rightarrow> (p1, Some TypeError)))))"

definition loadChart_reply :: "nat \<Rightarrow> reply \<Rightarrow> bool \<Rightarrow> page \<Rightarrow> page" where
  "loadChart_reply c r chart_fails p =
     (case loadChart_try c r chart_fails p of
        (p', None) \<Rightarrow> p'
      | (p', Some e) \<Rightarrow> log_console ''Failed to load chart:'' p')"

definition loadHistory_call :: "page \<Rightarrow> page" where
  "loadHistory_call p =
     p\<lparr>historyList := HistoryLoading, fetches := fetches p @ [GetHistory]\<rparr>"

text \<open>\<^verbatim>\<open>createHistoryItem\<close>.\<close>

definition createHistoryItem :: "json \<Rightarrow> exn + history_item_view" where
  "createHistoryItem item =
     (case (get item ''id'', get item ''created_at'', get item ''company_name'',
            get item ''recommendation'', get item ''query'') of
        (Inr i, Inr created, Inr company, Inr (Some (JStr recm)), Inr q) \<Rightarrow>
          (case (to_string_val created,
                 if truthy company then to_string_val company else Some ''Unknown'',
                 to_string_val q) of
             (Some _, Some c, Some q') \<Rightarrow>
               Inr \<lparr>h_id = i, h_company = c, h_recommendation = recm, h_query = q',
                    h_date = created\<rparr>
           | _ \<Rightarrow> Inl TypeError)
      | _ \<Rightarrow> Inl TypeError)"

fun history_items :: "json list \<Rightarrow> exn + history_item_view list" where
  "history_items [] = Inr []"
| "history_items (x # xs) =
     (case createHistoryItem x of
        Inl e \<Rightarrow> Inl e
      | Inr v \<Rightarrow> (case history_items xs of Inl e \<Rightarrow> Inl e | Inr vs \<Rightarrow> Inr (v # vs)))"

definition loadHistory_try :: "builtins \<Rightarrow> reply \<Rightarrow> stmt" where
  "loadHistory_try bi r p =
     (case r of
        Rejected \<Rightarrow> (p, Some NetworkError)
      | Response ok body \<Rightarrow>
          (case body of
             None \<Rightarrow> (p, Some SyntaxError)
           | Some data \<Rightarrow>
               (case get data ''history'' of
                  Inl e \<Rightarrow> (p, Some e)
                | Inr None \<Rightarrow> (p\<lparr>historyList := HistoryNone\<rparr>, None)
                | Inr (Some h) \<Rightarrow>
                    if \<not> truthy (Some h) then (p\<lparr>historyList := HistoryNone\<rparr>, None)
                    else (case length_gt0 bi h of
                            Inl e \<Rightarrow> (p, Some e)
                          | Inr False \<Rightarrow> (p\<lparr>historyList := HistoryNone\<rparr>, None)
                          | Inr True \<Rightarrow>
                              (case h of
                                 JArr items \<Rightarrow>
                                   (case history_items items of
                                      Inl e \<Rightarrow> (p, Some e)
                                    | Inr vs \<Rightarrow> (p\<lparr>historyList := HistoryItems vs\<rparr>, None))
                               | _ \<Rightarrow> (p, Some TypeError))))))"

definition loadHistory_reply :: "builtins \<Rightarrow> reply \<Rightarrow> page \<Rightarrow> page" where
  "loadHistory_reply bi r p =
     (case loadHistory_try bi r p of
        (p', None) \<Rightarrow> p'
      | (p', Some e) \<Rightarrow>
          (log_console ''Failed to load history:'' p')\<lparr>historyList := HistoryFailed\<rparr>)"

text \<open>
  \<^verbatim>\<open>loadHistoricalResearch\<close>. The object handed to \<^verbatim>\<open>displayResults\<close> has the four
  properties of the source; one whose value is \<^verbatim>\<open>undefined\<close> reads as a missing one.
\<close>

definition resultData :: "json \<Rightarrow> exn + json" where
  "resultData data =
     (case (get data ''short_summary'', get data ''full_report'',
            get data ''follow_up_questions'', get data ''verification'') of
        (Inr a, Inr b, Inr c, Inr d) \<Rightarrow>
          Inr (JObj (List.map_filter (\<lambda>(k, v). map_option (Pair k) v)
                 [(''short_summary'', a), (''markdown_report'', b),
                  (''follow_up_questions'', c), (''verification'', d)]))
      | _ \<Rightarrow> Inl TypeError)"

definition loadHistoricalResearch_try :: "builtins \<Rightarrow> reply \<Rightarrow> stmt" where
  "loadHistoricalResearch_try bi r p =
     (case r of
        Rejected \<Rightarrow> (p, Some NetworkError)
      | Response ok body \<Rightarrow>
          (case body of
             None \<Rightarrow> (p, Some SyntaxError)
           | Some data \<Rightarrow>
               (let p1 = p\<lparr>historySidebar_open := False\<rparr>
                in case resultData data of
                     Inl e \<Rightarrow> (p1, Some e)
                   | Inr rd \<Rightarrow> displayResults bi rd p1)))"

definition loadHistoricalResearch_catch :: "page \<Rightarrow> page" where
  "loadHistoricalResearch_catch p =
     fst (showError (Some (JStr ''Failed to load historical research''))
            (log_console ''Failed to load historical research:'' p))"

definition loadHistoricalResearch_call :: "jsval \<Rightarrow> page \<Rightarrow> page" where
  "loadHistoricalResearch_call ident p =
     (case to_string_val ident of
        None \<Rightarrow> loadHistoricalResearch_catch p
      | Some i \<Rightarrow> p\<lparr>fetches := fetches p @ [GetHistoryItem i]\<rparr>)"

definition loadHistoricalResearch_reply :: "builtins \<Rightarrow> reply \<Rightarrow> page \<Rightarrow> page" where
  "loadHistoricalResearch_reply bi r p =
     (case loadHistoricalResearch_try bi r p of
        (p', None) \<Rightarrow> p'
      | (p', Some e) \<Rightarrow> loadHistoricalResearch_catch p')"


section \<open>The click handler of the Analyze button\<close>

subsection \<open>Dispatching one decoded event\<close>

definition enable_button :: "string \<Rightarrow> stmt" where
  "enable_button label = assign (\<lambda>p. p\<lparr>btn_disabled := False, btn_text := label\<rparr>)"

definition dispatch :: "builtins \<Rightarrow> string \<Rightarrow> json \<Rightarrow> stmt" where
  "dispatch bi eventType data =
     (if eventType = ''status'' then
        (\<lambda>p. case (get data ''stage'', get data ''done'') of
                (Inr stage, Inr isDone) \<Rightarrow> updateProgress stage isDone p
              | _ \<Rightarrow> (p, Some TypeError))
      else if eventType = ''agent_log'' then addActivityLog data
      else if eventType = ''complete'' then
        seq (displayResults bi data) (enable_button ''Analyze New Query'')
      else if eventType = ''error'' then
        (\<lambda>p. case get data ''message'' of
                Inl e \<Rightarrow> (p, Some e)
              | Inr m \<Rightarrow> seq (showError m) (enable_button ''Try Again'') p)
      else assign id)"

subsection \<open>One piece of the buffer\<close>

text \<open>
  The body of the \<^verbatim>\<open>for\<close> loop. Its first half decodes the piece: a blank piece
  and a piece without both an \<^verbatim>\<open>event:\<close> and a \<^verbatim>\<open>data:\<close> line give no record;
  otherwise the data is parsed, which may throw. Its second half dispatches the
  record.
\<close>

datatype decoded = NoRecord | Malformed | Record string json

definition decode_line :: "builtins \<Rightarrow> string \<Rightarrow> decoded" where
  "decode_line bi line =
     (if trim line = [] then NoRecord
      else (case (match_prefix ''event: '' line, match_prefix ''data: '' line) of
              (Some eventType, Some d) \<Rightarrow>
                (case JSON_parse bi d of
                   None \<Rightarrow> Malformed
                 | Some data \<Rightarrow> Record eventType data)
            | _ \<Rightarrow> NoRecord))"

definition handle_line :: "builtins \<Rightarrow> string \<Rightarrow> stmt" where
  "handle_line bi line =
     (case decode_line bi line of
        NoRecord \<Rightarrow> assign id
      | Malformed \<Rightarrow> throw SyntaxError
      | Record eventType data \<Rightarrow> dispatch bi eventType data)"

fun for_lines :: "builtins \<Rightarrow> string list \<Rightarrow> stmt" where
  "for_lines bi [] = assign id"
| "for_lines bi (line # rest) = seq (handle_line bi line) (for_lines bi rest)"

subsection \<open>Reading the stream\<close>

text \<open>
  One turn of the \<^verbatim>\<open>while\<close> loop on a chunk \<open>v\<close>: the chunk is appended to the
  buffer, the buffer is split, the last piece becomes the new buffer
  (\<^verbatim>\<open>lines.pop()\<close>; the split is never empty) and the others are handled in order.
  The chunk is the text the \<^verbatim>\<open>TextDecoder\<close>, in streaming mode, returns for it.
\<close>

definition on_chunk :: "builtins \<Rightarrow> string \<Rightarrow> string \<Rightarrow> page \<Rightarrow> (page \<times> exn option) \<times> string" where
  "on_chunk bi buffer v p =
     (let lines = split_nn (buffer @ v)
      in (for_lines bi (butlast lines) p, last lines))"

text \<open>
  The loop over a stream that delivers the chunks \<open>vs\<close> and then either ends
  (\<^verbatim>\<open>done\<close>) or fails (\<^verbatim>\<open>reader.read()\<close> rejects, \<open>fails\<close>).
\<close>

definition stream_end :: "bool \<Rightarrow> stmt" where
  "stream_end fails p = (if fails then (p, Some NetworkError) else (p, None))"

fun read_loop :: "builtins \<Rightarrow> string list \<Rightarrow> bool \<Rightarrow> string \<Rightarrow> stmt" where
  "read_loop bi [] fails buffer p = stream_end fails p"
| "read_loop bi (v # vs) fails buffer p =
     (case on_chunk bi buffer v p of
        ((p', None), buffer') \<Rightarrow> read_loop bi vs fails buffer' p'
      | ((p', Some e), buffer') \<Rightarrow> (p', Some e))"

text \<open>What \<^verbatim>\<open>fetch('/api/research')\<close> brings: a rejection, or a response with its
  \<^verbatim>\<open>ok\<close> flag, the chunks of its body, and whether the body fails before its end.\<close>

datatype research_reply = NoResponse | Stream bool "string list" bool

definition research_try :: "builtins \<Rightarrow> research_reply \<Rightarrow> stmt" where
  "research_try bi r =
     (case r of
        NoResponse \<Rightarrow> throw NetworkError
      | Stream ok vs fails \<Rightarrow>
          if \<not> ok then throw FailedToStart else read_loop bi vs fails [])"

definition catch_block :: "page \<Rightarrow> page" where
  "catch_block p =
     (fst (showError
             (Some (JStr ''An error occurred while processing your request. Please try again.''))
             (log_console ''Error:'' p)))
       \<lparr>btn_disabled := False, btn_text := ''Try Again''\<rparr>"

text \<open>\<^verbatim>\<open>try { ... } catch (error) { ... }\<close> around the request and the loop.\<close>

definition settle :: "page \<times> exn option \<Rightarrow> page" where
  "settle r = (case r of (p', None) \<Rightarrow> p' | (p', Some e) \<Rightarrow> catch_block p')"

definition research :: "builtins \<Rightarrow> research_reply \<Rightarrow> page \<Rightarrow> page" where
  "research bi r p = settle (research_try bi r p)"

text \<open>
  The records that the loop decodes from the chunks of a stream, in order, with the
  pieces that give none.
\<close>

fun decode_chunks :: "builtins \<Rightarrow> string list \<Rightarrow> string \<Rightarrow> decoded list" where
  "decode_chunks bi [] buffer = []"
| "decode_chunks bi (v # vs) buffer =
     (let lines = split_nn (buffer @ v)
      in map (decode_line bi) (butlast lines) @ decode_chunks bi vs (last lines))"

subsection \<open>The part of the handler before the first \<^verbatim>\<open>await\<close>\<close>

definition analyze_click :: "page \<Rightarrow> page" where
  "analyze_click p =
     (let query = trim (queryInput p)
      in if query = [] then p
         else
           (let p1 = resetUI p;
                p2 = loadChart_call query p1;
                p3 = p2\<lparr>progressSection := display_block, activitySection := display_block\<rparr>;
                p4 = p3\<lparr>btn_disabled := True, btn_text := ''Analyzing...''\<rparr>
            in p4\<lparr>fetches := fetches p4 @ [PostResearch query]\<rparr>))"

section \<open>Several handlers on one page\<close>

text \<open>
  Every click that passes the query test starts an instance of the handler, which
  stays suspended at its \<^verbatim>\<open>await\<close>s while other code runs. An instance awaits
  the response, or reads the stream with its own \<^verbatim>\<open>buffer\<close>, or has returned. All
  instances write to the one page. A disabled button fires no click event.
\<close>

datatype handler = AwaitingResponse | Reading string | Returned

record world =
  the_page :: page
  handlers :: "handler list"

datatype occurrence =
    Click
  | ResponseArrives nat bool
  | FetchRejects nat
  | ChunkArrives nat string
  | StreamEnds nat
  | ReadRejects nat

definition handler_at :: "world \<Rightarrow> nat \<Rightarrow> handler" where
  "handler_at w i = (if i < length (handlers w) then handlers w ! i else Returned)"

definition fail_handler :: "nat \<Rightarrow> page \<Rightarrow> world \<Rightarrow> world" where
  "fail_handler i p w =
     w\<lparr>the_page := catch_block p, handlers := (handlers w)[i := Returned]\<rparr>"

fun step :: "builtins \<Rightarrow> occurrence \<Rightarrow> world \<Rightarrow> world" where
  "step bi Click w =
     (if btn_disabled (the_page w) then w
      else if trim (queryInput (the_page w)) = [] then w\<lparr>the_page := analyze_click (the_page w)\<rparr>
      else w\<lparr>the_page := analyze_click (the_page w),
              handlers := handlers w @ [AwaitingResponse]\<rparr>)"
| "step bi (ResponseArrives i ok) w =
     (case handler_at w i of
        AwaitingResponse \<Rightarrow>
          if ok then w\<lparr>handlers := (handlers w)[i := Reading []]\<rparr>
          else fail_handler i (the_page w) w
      | _ \<Rightarrow> w)"
| "step bi (FetchRejects i) w =
     (case handler_at w i of
        AwaitingResponse \<Rightarrow> fail_handler i (the_page w) w
      | _ \<Rightarrow> w)"
| "step bi (ChunkArrives i v) w =
     (case handler_at w i of
        Reading buffer \<Rightarrow>
          (case on_chunk bi buffer v (the_page w) of
             ((p', None), buffer') \<Rightarrow>
               w\<lparr>the_page := p', handlers := (handlers w)[i := Reading buffer']\<rparr>
           | ((p', Some e), buffer') \<Rightarrow> fail_handler i p' w)
      | _ \<Rightarrow> w)"
| "step bi (StreamEnds i) w =
     (case handler_at w i of
        Reading buffer \<Rightarrow> w\<lparr>handlers := (handlers w)[i := Returned]\<rparr>
      | _ \<Rightarrow> w)"
| "step bi (ReadRejects i) w =
     (case handler_at w i of
        Reading buffer \<Rightarrow> fail_handler i (the_page w) w
      | _ \<Rightarrow> w)"

fun run :: "builtins \<Rightarrow> occurrence list \<Rightarrow> world \<Rightarrow> world" where
  "run bi [] w = w"
| "run bi (x # xs) w = run bi xs (step bi x w)"


section \<open>Sample inputs\<close>

text \<open>
  A page as it is loaded: the four stepper elements without classes, nothing shown,
  the button enabled; and a query typed into the input.
\<close>

definition pending :: step_classes where
  "pending = \<lparr>cls_active = False, cls_completed = False\<rparr>"

definition active_only :: step_classes where
  "active_only = \<lparr>cls_active = True, cls_completed = False\<rparr>"

definition done_only :: step_classes where
  "done_only = \<lparr>cls_active = False, cls_completed = True\<rparr>"

definition page0 :: page where
  "page0 =
     \<lparr>queryInput = ''Is Amazon a good investment?'',
      progressSection = display_none, resultsSection = display_none,
      errorSection = display_none, activitySection = display_none,
      activityLogContent = [],
      steps = [''planning'' \<mapsto> pending, ''searching'' \<mapsto> pending,
               ''writing'' \<mapsto> pending, ''verifying'' \<mapsto> pending],
      errorMessage = [], btn_disabled = False, btn_text = ''Analyze'',
      stockName = [], badge_text = [], badge_class = [], metricsGrid = ([], []),
      recommendationText = [], reportMarkdown = [], followUpQuestions = [],
      verificationContent = None, stockChart = Some 0, canvas_display = display_initial,
      chart_placeholders = 0, stockChartInstance = None,
      historySidebar_open = False, historyList = HistoryMarkup,
      console = [], fetches = []\<rparr>"

text \<open>The payloads of the examples, as texts and as the values \<^verbatim>\<open>JSON.parse\<close> gives
  for them.\<close>

definition planning_active_text :: string where
  \<open>planning_active_text = ''{"stage": "planning", "done": false}''\<close>

definition planning_active :: json where
  "planning_active = JObj [(''stage'', JStr ''planning''), (''done'', JBool False)]"

definition planning_done :: json where
  "planning_done = JObj [(''stage'', JStr ''planning''), (''done'', JBool True)]"

definition searching_active :: json where
  "searching_active = JObj [(''stage'', JStr ''searching''), (''done'', JBool False)]"

definition log_text :: string where
  \<open>log_text = ''{"timestamp": "2025-01-01T10:00:00", "agent": "Planner", "action": "Planning searches"}''\<close>

definition log_json :: json where
  "log_json = JObj [(''timestamp'', JStr ''2025-01-01T10:00:00''), (''agent'', JStr ''Planner''),
                    (''action'', JStr ''Planning searches'')]"

definition error_text :: string where
  \<open>error_text = ''{"message": "Research failed"}''\<close>

definition error_json :: json where
  "error_json = JObj [(''message'', JStr ''Research failed'')]"

definition complete_text :: string where
  \<open>complete_text = ''{"short_summary": "We recommend a strong buy despite some negative risk", "markdown_report": "# Amazon", "follow_up_questions": [], "verification": {"verified": true, "issues": "none"}}''\<close>

definition complete_json :: json where
  "complete_json =
     JObj [(''short_summary'', JStr ''We recommend a strong buy despite some negative risk''),
           (''markdown_report'', JStr ''# Amazon''),
           (''follow_up_questions'', JArr []),
           (''verification'', JObj [(''verified'', JBool True), (''issues'', JStr ''none'')])]"


text \<open>
  \<^verbatim>\<open>JSON.parse\<close> on the texts above: the first four are JSON texts, the last is cut
  off in the middle of an object. In this theory the sample is applied to no other
  text. No string is compared with a number in the examples.
\<close>

definition sample_parse :: "string \<Rightarrow> json option" where
  "sample_parse t =
     (if t = planning_active_text then Some planning_active
      else if t = log_text then Some log_json
      else if t = error_text then Some error_json
      else if t = complete_text then Some complete_json
      else None)"

definition sample_builtins :: builtins where
  "sample_builtins =
     \<lparr>JSON_parse = sample_parse, StringToNumber_gt0 = (\<lambda>s. False)\<rparr>"

text \<open>One frame of the stream: \<^verbatim>\<open>event: <type>\n\<close>, \<^verbatim>\<open>data: <json>\n\n\<close>;
  \<open>segment\<close> is the frame without its closing blank line.\<close>

definition segment :: "string \<Rightarrow> string \<Rightarrow> string" where
  "segment ty d = ''event: '' @ ty @ ''\<newline>data: '' @ d"

definition frame :: "string \<Rightarrow> string \<Rightarrow> string" where
  "frame ty d = segment ty d @ ''\<newline>\<newline>''"


text \<open>A stream of one frame followed by the beginning of a second, cut into two chunks
  in the middle of the first frame's \<^verbatim>\<open>data:\<close> line.\<close>

definition cut_stream :: "string list" where
  \<open>cut_stream =
     [''event: status\<newline>da'',
      ''ta: {"stage": "planning", "done": false}\<newline>\<newline>event: agent_log\<newline>data: {"timest'']\<close>

definition partial_tail :: string where
  \<open>partial_tail = ''event: agent_log\<newline>data: {"timest''\<close>



text \<open>The page after a click with the sample query, while the run is in progress; after a
  \<^verbatim>\<open>status\<close> event that marks planning done; and after a stream with one
  \<^verbatim>\<open>complete\<close> event.\<close>

definition running_page :: page where
  "running_page = analyze_click page0"

definition planning_done_page :: page where
  "planning_done_page = fst (dispatch sample_builtins ''status'' planning_done page0)"

definition completed_page :: page where
  "completed_page =
     research sample_builtins (Stream True [frame ''complete'' complete_text] False) running_page"

text \<open>A page whose query is white space only.\<close>

definition blank_query_page :: page where
  "blank_query_page = page0\<lparr>queryInput := '' \<newline>  ''\<rparr>"

text \<open>
  Two submissions: the first run receives an \<^verbatim>\<open>error\<close> event, which enables the button
  again while its stream stays open; the second click starts the second run.
\<close>

definition world0 :: world where
  "world0 = \<lparr>the_page = page0, handlers = []\<rparr>"

definition second_submit_world :: world where
  "second_submit_world =
     run sample_builtins
       [Click, ResponseArrives 0 True, ChunkArrives 0 (frame ''error'' error_text),
        Click, ResponseArrives 1 True] world0"

text \<open>The running page after a non-success reply to its chart request: the canvas that
  load looked up, number 0, is replaced.\<close>

definition chart_refused_page :: page where
  "chart_refused_page = loadChart_reply 0 (Response False None) False running_page"

text \<open>The body of a non-success response of the history service.\<close>

definition not_found :: json where
  "not_found = JObj [(''error'', JStr ''Not found'')]"

section \<open>Notions used in the statements\<close>

text \<open>\<open>w\<close> occurs in \<open>s\<close>.\<close>

definition contains :: "string \<Rightarrow> string \<Rightarrow> bool" where
  "contains s w \<longleftrightarrow> (\<exists>pre post. s = pre @ w @ post)"

text \<open>The stepper element of a stage exists and carries the class \<^verbatim>\<open>completed\<close>.\<close>

definition marked_completed :: "string \<Rightarrow> page \<Rightarrow> bool" where
  "marked_completed s p = (case steps p s of None \<Rightarrow> False | Some c \<Rightarrow> cls_completed c)"

text \<open>The regions a run writes: the two sections it shows, the stepper, the log, the
  result, the error banner and the button.\<close>

definition run_regions ::
  "page \<Rightarrow> display \<times> display \<times> (string \<rightharpoonup> step_classes) \<times> log_entry list \<times> display \<times>
     (string \<times> string \<times> string \<times> (string \<times> string) \<times> string \<times> string \<times> string list \<times>
      verification_view option) \<times> display \<times> string \<times> bool \<times> string" where
  "run_regions p =
     (progressSection p, activitySection p, steps p, activityLogContent p,
      resultsSection p,
      (stockName p, badge_text p, badge_class p, metricsGrid p, recommendationText p,
       reportMarkdown p, followUpQuestions p, verificationContent p),
      errorSection p, errorMessage p, btn_disabled p, btn_text p)"

definition stepper_log_button ::
  "page \<Rightarrow> display \<times> display \<times> (string \<rightharpoonup> step_classes) \<times> log_entry list \<times> bool \<times> string" where
  "stepper_log_button p =
     (progressSection p, activitySection p, steps p, activityLogContent p,
      btn_disabled p, btn_text p)"

text \<open>Everything but the content that \<^verbatim>\<open>displayResults\<close> renders.\<close>

definition outside_content ::
  "page \<Rightarrow> string \<times> display \<times> display \<times> display \<times> display \<times> log_entry list \<times>
     (string \<rightharpoonup> step_classes) \<times> string \<times> bool \<times> string \<times> nat option \<times> display \<times> nat \<times>
     chart_view option \<times> bool \<times> history_list \<times> string list \<times> request list" where
  "outside_content p =
     (queryInput p, progressSection p, resultsSection p, errorSection p, activitySection p,
      activityLogContent p, steps p, errorMessage p, btn_disabled p, btn_text p,
      stockChart p, canvas_display p, chart_placeholders p, stockChartInstance p,
      historySidebar_open p, historyList p, console p, fetches p)"

definition badge :: "page \<Rightarrow> string \<times> string" where
  "badge p = (badge_text p, badge_class p)"

text \<open>A statement leaves a view of the page as it was.\<close>

definition keeps :: "(page \<Rightarrow> 'a) \<Rightarrow> stmt \<Rightarrow> bool" where
  "keeps view f \<longleftrightarrow> (\<forall>p. view (fst (f p)) = view p)"

text \<open>
  What only a click undoes: a \<^verbatim>\<open>completed\<close> class, the enabled button, a shown error
  banner, a shown result section, and the entries of the log.
\<close>

definition advances :: "page \<Rightarrow> page \<Rightarrow> bool" where
  "advances p p' \<longleftrightarrow>
     (\<forall>s. marked_completed s p \<longrightarrow> marked_completed s p') \<and>
     (\<not> btn_disabled p \<longrightarrow> \<not> btn_disabled p') \<and>
     (errorSection p = display_block \<longrightarrow> errorSection p' = display_block) \<and>
     (resultsSection p = display_block \<longrightarrow> resultsSection p' = display_block) \<and>
     (\<exists>new. activityLogContent p' = activityLogContent p @ new)"

definition progresses :: "stmt \<Rightarrow> bool" where
  "progresses f \<longleftrightarrow> (\<forall>p. advances p (fst (f p)))"

section \<open>Splitting is incremental\<close>

lemma split_nn_nonempty: "split_nn s \<noteq> []"
proof (induction s rule: split_nn.induct)
  case (1 a b cs)
  then show ?case by (cases "split_nn (b # cs)") auto
qed auto

lemma split_nn_step:
  "\<not> (a = CHR 0x0A \<and> b = CHR 0x0A) \<Longrightarrow>
   split_nn (a # b # cs) = push_front a (split_nn (b # cs))"
  by auto

lemma split_nn_single: "split_nn s = [x] \<Longrightarrow> x = s"
proof (induction s arbitrary: x rule: split_nn.induct)
  case (1 a b cs)
  show ?case
  proof (cases "a = CHR 0x0A \<and> b = CHR 0x0A")
    case True
    with "1.prems" show ?thesis by (simp add: split_nn_nonempty)
  next
    case False
    with "1.prems" obtain y where "split_nn (b # cs) = [y]" "x = a # y"
      by (cases "split_nn (b # cs)") (auto simp: split_nn_nonempty)
    with "1.IH"(2)[of y] False show ?thesis by simp
  qed
qed auto

text \<open>
  The pieces of \<open>s @ t\<close> are the pieces of \<open>s\<close> without the last, followed by the
  pieces of that last piece extended by \<open>t\<close>: a separator found in \<open>s\<close> is found at
  the same place in \<open>s @ t\<close>.
\<close>

lemma split_nn_append:
  "split_nn (s @ t) = butlast (split_nn s) @ split_nn (last (split_nn s) @ t)"
proof (induction s rule: split_nn.induct)
  case (1 a b cs)
  show ?case
  proof (cases "a = CHR 0x0A \<and> b = CHR 0x0A")
    case True
    with "1.IH"(1) show ?thesis by (simp add: split_nn_nonempty)
  next
    case False
    note IH = "1.IH"(2)[OF False]
    show ?thesis
    proof (cases "split_nn (b # cs)")
      case Nil
      then show ?thesis by (simp add: split_nn_nonempty)
    next
      case (Cons x xs)
      show ?thesis
      proof (cases xs)
        case Nil
        with Cons have one: "split_nn (b # cs) = [b # cs]"
          using split_nn_single by blast
        have "split_nn ((a # b # cs) @ t) = push_front a (split_nn (b # cs @ t))"
          using split_nn_step[OF False] by simp
        moreover have "split_nn (a # b # cs) = [a # b # cs]"
          using split_nn_step[OF False] one by simp
        ultimately show ?thesis by (simp del: split_nn.simps)
      next
        case (Cons y ys)
        have "split_nn ((a # b # cs) @ t) = push_front a (split_nn ((b # cs) @ t))"
          using split_nn_step[OF False] by simp
        also have "\<dots> = push_front a (butlast (x # y # ys) @ split_nn (last (x # y # ys) @ t))"
          using IH \<open>split_nn (b # cs) = x # xs\<close> Cons by simp
        also have "\<dots> = butlast ((a # x) # y # ys) @ split_nn (last ((a # x) # y # ys) @ t)"
          by simp
        also have "(a # x) # y # ys = split_nn (a # b # cs)"
          using split_nn_step[OF False] \<open>split_nn (b # cs) = x # xs\<close> Cons by simp
        finally show ?thesis .
      qed
    qed
  qed
qed auto

lemma butlast_split_nn_append:
  "butlast (split_nn (s @ t)) =
   butlast (split_nn s) @ butlast (split_nn (last (split_nn s) @ t))"
  by (subst split_nn_append) (simp add: butlast_append split_nn_nonempty)

lemma str_includes_contains: "str_includes s w = contains s w"
proof (induction s)
  case Nil
  show ?case by (auto simp: contains_def)
next
  case (Cons c cs)
  show ?case
  proof
    assume "str_includes (c # cs) w"
    then consider "take (length w) (c # cs) = w" | "str_includes cs w" by auto
    then show "contains (c # cs) w"
    proof cases
      case 1
      then have "c # cs = [] @ w @ drop (length w) (c # cs)"
        by (metis append_Nil append_take_drop_id)
      then show ?thesis unfolding contains_def by blast
    next
      case 2
      with Cons.IH obtain pre post where "cs = pre @ w @ post" by (auto simp: contains_def)
      then have "c # cs = (c # pre) @ w @ post" by simp
      then show ?thesis unfolding contains_def by blast
    qed
  next
    assume "contains (c # cs) w"
    then obtain pre post where eq: "c # cs = pre @ w @ post" by (auto simp: contains_def)
    show "str_includes (c # cs) w"
    proof (cases pre)
      case Nil
      with eq have "take (length w) (c # cs) = w" by simp
      then show ?thesis by simp
    next
      case (Cons a pre')
      with eq have "cs = pre' @ w @ post" by simp
      then have "contains cs w" unfolding contains_def by blast
      with Cons.IH show ?thesis by simp
    qed
  qed
qed

lemma no_separator_split:
  "\<not> str_includes t ''\<newline>\<newline>'' \<Longrightarrow> split_nn t = [t]"
proof (induction t rule: split_nn.induct)
  case (1 a b cs)
  from "1.prems" have ns: "\<not> (a = CHR 0x0A \<and> b = CHR 0x0A)" by auto
  from "1.prems" have "\<not> str_includes (b # cs) ''\<newline>\<newline>''" by simp
  with "1.IH"(2)[OF ns] have "split_nn (b # cs) = [b # cs]" by simp
  with split_nn_step[OF ns] show ?case by simp
qed auto

text \<open>The last piece, which the loop keeps as its buffer, holds no separator.\<close>

lemma split_nn_last_no_separator:
  "\<not> str_includes (last (split_nn s)) ''\<newline>\<newline>''"
proof (induction s rule: split_nn.induct)
  case (1 a b cs)
  show ?case
  proof (cases "a = CHR 0x0A \<and> b = CHR 0x0A")
    case True
    with "1.IH"(1) show ?thesis by (simp add: split_nn_nonempty)
  next
    case False
    note IH = "1.IH"(2)[OF False]
    show ?thesis
    proof (cases "split_nn (b # cs)")
      case Nil
      then show ?thesis by (simp add: split_nn_nonempty)
    next
      case (Cons x xs)
      show ?thesis
      proof (cases xs)
        case Nil
        with Cons have one: "split_nn (b # cs) = [b # cs]"
          using split_nn_single by blast
        with IH have "\<not> str_includes (b # cs) ''\<newline>\<newline>''" by simp
        moreover have "split_nn (a # b # cs) = [a # b # cs]"
          using split_nn_step[OF False] one by simp
        ultimately show ?thesis using False by (auto simp del: split_nn.simps)
      next
        case (Cons y ys)
        with \<open>split_nn (b # cs) = x # xs\<close> IH split_nn_step[OF False]
        show ?thesis by (simp del: split_nn.simps)
      qed
    qed
  qed
qed auto

text \<open>
  Every text is a part after which the loop is left with an empty buffer, followed by
  the piece the loop would keep.
\<close>

lemma split_nn_complete_part:
  "\<exists>b. s = b @ last (split_nn s) \<and> last (split_nn b) = []"
proof (induction s rule: split_nn.induct)
  case (1 a b cs)
  show ?case
  proof (cases "a = CHR 0x0A \<and> b = CHR 0x0A")
    case True
    from "1.IH"(1)[OF True] obtain b' where
      b': "cs = b' @ last (split_nn cs)" "last (split_nn b') = []"
      by blast
    have "a # b # cs = (a # b # b') @ last (split_nn (a # b # cs))"
      using True b'(1) by (simp add: split_nn_nonempty)
    moreover have "last (split_nn (a # b # b')) = []"
      using True b'(2) by (simp add: split_nn_nonempty)
    ultimately show ?thesis by blast
  next
    case False
    from "1.IH"(2)[OF False] obtain b' where
      b': "b # cs = b' @ last (split_nn (b # cs))" "last (split_nn b') = []"
      by blast
    show ?thesis
    proof (cases "split_nn (b # cs)")
      case Nil
      then show ?thesis by (simp add: split_nn_nonempty)
    next
      case (Cons x xs)
      show ?thesis
      proof (cases xs)
        case Nil
        with Cons have one: "split_nn (b # cs) = [b # cs]"
          using split_nn_single by blast
        have "split_nn (a # b # cs) = [a # b # cs]"
          using split_nn_step[OF False] one by simp
        then have "a # b # cs = [] @ last (split_nn (a # b # cs))"
          by (simp del: split_nn.simps)
        moreover have "last (split_nn []) = []" by simp
        ultimately show ?thesis by blast
      next
        case (Cons y ys)
        with \<open>split_nn (b # cs) = x # xs\<close> split_nn_step[OF False]
        have lst: "last (split_nn (a # b # cs)) = last (split_nn (b # cs))"
          by (simp del: split_nn.simps)
        have ne: "b' \<noteq> []"
        proof
          assume "b' = []"
          with b'(1) have "split_nn (last (split_nn (b # cs))) = split_nn (b # cs)" by simp
          moreover have "split_nn (last (split_nn (b # cs))) = [last (split_nn (b # cs))]"
            using no_separator_split split_nn_last_no_separator by blast
          ultimately show False using \<open>split_nn (b # cs) = x # xs\<close> Cons by simp
        qed
        then obtain b'' where b'': "b' = b # b''" using b'(1) by (cases b') auto
        have "a # b # cs = (a # b') @ last (split_nn (a # b # cs))"
          using b'(1) lst by (simp del: split_nn.simps)
        moreover have "last (split_nn (a # b')) = []"
          using b'(2) b'' split_nn_step[OF False, of b'']
          by (cases "split_nn (b # b'')")
             (auto simp: split_nn_nonempty simp del: split_nn.simps dest: split_nn_single)
        ultimately show ?thesis by blast
      qed
    qed
  qed
qed auto

section \<open>The loop handles the pieces of the whole body\<close>

lemma seq_skip_left: "seq (assign id) g = g"
  by (rule ext) (simp add: seq_def assign_def)

lemma seq_assoc: "seq (seq f g) h = seq f (seq g h)"
  by (rule ext) (simp add: seq_def split: prod.splits option.splits)

lemma for_lines_append: "for_lines bi (xs @ ys) = seq (for_lines bi xs) (for_lines bi ys)"
  by (induction xs) (simp_all add: seq_skip_left seq_assoc)

lemma read_loop_Nil: "read_loop bi [] fails buffer = stream_end fails"
  by (rule ext) simp

lemma read_loop_Cons:
  "read_loop bi (v # vs) fails buffer =
   seq (for_lines bi (butlast (split_nn (buffer @ v))))
     (read_loop bi vs fails (last (split_nn (buffer @ v))))"
  by (rule ext) (simp add: on_chunk_def Let_def seq_def split: prod.splits option.splits)

lemma read_loop_flat:
  "read_loop bi (v # vs) fails buffer =
   seq (for_lines bi (butlast (split_nn (buffer @ v @ concat vs)))) (stream_end fails)"
proof (induction vs arbitrary: v buffer)
  case Nil
  show ?case by (simp only: read_loop_Cons read_loop_Nil concat.simps append_Nil2)
next
  case (Cons v' vs')
  have cut: "butlast (split_nn (buffer @ v @ concat (v' # vs'))) =
        butlast (split_nn (buffer @ v)) @
        butlast (split_nn (last (split_nn (buffer @ v)) @ v' @ concat vs'))"
    using butlast_split_nn_append[of "buffer @ v" "v' @ concat vs'"] by simp
  have "read_loop bi (v # v' # vs') fails buffer =
        seq (for_lines bi (butlast (split_nn (buffer @ v))))
          (read_loop bi (v' # vs') fails (last (split_nn (buffer @ v))))"
    by (rule read_loop_Cons)
  then show ?case
    unfolding cut by (simp only: Cons.IH for_lines_append seq_assoc)
qed

lemma read_loop_whole:
  "read_loop bi vs fails [] =
   seq (for_lines bi (butlast (split_nn (concat vs)))) (stream_end fails)"
proof (cases vs)
  case Nil
  then show ?thesis by (simp add: read_loop_Nil seq_skip_left)
next
  case (Cons v vs')
  then show ?thesis using read_loop_flat[of bi v vs' fails "[]"] by simp
qed

lemma decode_chunks_flat:
  "decode_chunks bi (v # vs) buffer =
   map (decode_line bi) (butlast (split_nn (buffer @ v @ concat vs)))"
proof (induction vs arbitrary: v buffer)
  case Nil
  show ?case by (simp add: Let_def)
next
  case (Cons v' vs')
  have cut: "butlast (split_nn (buffer @ v @ concat (v' # vs'))) =
        butlast (split_nn (buffer @ v)) @
        butlast (split_nn (last (split_nn (buffer @ v)) @ v' @ concat vs'))"
    using butlast_split_nn_append[of "buffer @ v" "v' @ concat vs'"] by simp
  have "decode_chunks bi (v # v' # vs') buffer =
        map (decode_line bi) (butlast (split_nn (buffer @ v))) @
        decode_chunks bi (v' # vs') (last (split_nn (buffer @ v)))"
    by (subst decode_chunks.simps(2)) (simp only: Let_def)
  then show ?case
    unfolding cut by (simp only: Cons.IH map_append)
qed

lemma decode_chunks_whole:
  "decode_chunks bi vs [] = map (decode_line bi) (butlast (split_nn (concat vs)))"
proof (cases vs)
  case Nil
  then show ?thesis by simp
next
  case (Cons v vs')
  then show ?thesis using decode_chunks_flat[of bi v vs' "[]"] by simp
qed

section \<open>The decoder\<close>

text \<open>
  C3. However a body is cut into chunks, the loop decodes from the chunks the same
  records, in the same order, as from the body in one chunk, and leaves the page in the
  same state with the same outcome. This holds for every body, well-formed or not.
\<close>

theorem chunk_boundary_invariance:
  "decode_chunks bi vs [] = decode_chunks bi [concat vs] [] \<and>
   read_loop bi vs fails [] p = read_loop bi [concat vs] fails [] p"
  by (simp only: decode_chunks_whole read_loop_whole concat.simps append_Nil2 simp_thms)

text \<open>
  C4. Let a stream consist of a part \<open>b\<close> after which the loop is left with an empty
  buffer (\<open>b\<close> ends right after a complete record) and a rest \<open>t\<close> that holds no
  blank-line separator. Then the loop decodes from the stream, however it is cut into
  chunks, what it decodes from \<open>b\<close> alone, and treats the page alike: \<open>t\<close> gives no
  record. By \<open>split_nn_complete_part\<close> and \<open>split_nn_last_no_separator\<close> every
  stream has this form.
\<close>

theorem trailing_fragment_discarded:
  assumes "concat vs = b @ t"
    and "last (split_nn b) = []"
    and "\<not> str_includes t ''\<newline>\<newline>''"
  shows "decode_chunks bi vs [] = decode_chunks bi [b] [] \<and>
         read_loop bi vs fails [] p = read_loop bi [b] fails [] p"
proof -
  have "split_nn t = [t]" using assms(3) by (rule no_separator_split)
  then have "butlast (split_nn (b @ t)) = butlast (split_nn b)"
    using butlast_split_nn_append[of b t] assms(2) by simp
  then show ?thesis
    using assms(1) by (simp only: decode_chunks_whole read_loop_whole concat.simps append_Nil2 simp_thms)
qed

theorem trailing_fragment_discarded_witness:
  "concat cut_stream = frame ''status'' planning_active_text @ partial_tail \<and>
   last (split_nn (frame ''status'' planning_active_text)) = [] \<and>
   \<not> str_includes partial_tail ''\<newline>\<newline>'' \<and>
   decode_chunks sample_builtins cut_stream [] = [Record ''status'' planning_active] \<and>
   decode_chunks sample_builtins cut_stream [] =
     decode_chunks sample_builtins [frame ''status'' planning_active_text] [] \<and>
   read_loop sample_builtins cut_stream False [] page0 =
     read_loop sample_builtins [frame ''status'' planning_active_text] False [] page0"
proof -
  have h1: "concat cut_stream = frame ''status'' planning_active_text @ partial_tail"
    by code_simp
  have h2: "last (split_nn (frame ''status'' planning_active_text)) = []"
    by code_simp
  have h3: "\<not> str_includes partial_tail ''\<newline>\<newline>''"
    by code_simp
  have h4: "decode_chunks sample_builtins [frame ''status'' planning_active_text] [] =
            [Record ''status'' planning_active]"
    by code_simp
  show ?thesis
    using h1 h2 h3 h4 trailing_fragment_discarded[OF h1 h2 h3, of sample_builtins False page0]
    by simp
qed


section \<open>What the statements of the handler keep\<close>

lemma fst_seq:
  "fst (seq f g p) = (case f p of (p', None) \<Rightarrow> fst (g p') | (p', Some e) \<Rightarrow> p')"
  by (simp add: seq_def split: prod.splits option.splits)

lemma keeps_seq: "keeps view f \<Longrightarrow> keeps view g \<Longrightarrow> keeps view (seq f g)"
  by (auto simp: keeps_def seq_def split: prod.splits option.splits) (metis fst_conv)+

lemma keeps_set_company: "keeps outside_content (set_company data)"
  by (simp add: keeps_def set_company_def outside_content_def
      split: sum.splits option.splits json.splits)

lemma keeps_set_badge: "keeps outside_content (set_badge data)"
  by (simp add: keeps_def set_badge_def outside_content_def
      split: sum.splits option.splits json.splits)

lemma keeps_set_metrics: "keeps outside_content (set_metrics data)"
  by (simp add: keeps_def set_metrics_def outside_content_def
      split: sum.splits option.splits json.splits)

lemma keeps_set_recommendation_text: "keeps outside_content (set_recommendation_text data)"
  by (simp add: keeps_def set_recommendation_text_def outside_content_def
      split: sum.splits option.splits json.splits)

lemma keeps_set_report: "keeps outside_content (set_report data)"
  by (simp add: keeps_def set_report_def outside_content_def
      split: sum.splits option.splits json.splits)

lemma append_questions_outside:
  "outside_content (fst (append_questions qs p)) = outside_content p"
  by (induction qs arbitrary: p) (simp_all add: outside_content_def split: option.splits)

lemma keeps_set_questions: "keeps outside_content (set_questions data)"
  unfolding set_questions_def
  by (rule keeps_seq)
     (simp_all add: keeps_def assign_def append_questions_outside
        split: sum.splits option.splits json.splits, simp add: outside_content_def)

lemma keeps_set_verification: "keeps outside_content (set_verification bi data)"
  by (simp add: keeps_def set_verification_def outside_content_def
      split: sum.splits option.splits json.splits prod.splits)

text \<open>\<^verbatim>\<open>displayResults\<close> shows the result section and otherwise writes only the content
  it renders, also when it throws.\<close>

lemma displayResults_outside:
  "outside_content (fst (displayResults bi data p)) =
   outside_content (p\<lparr>resultsSection := display_block\<rparr>)"
proof -
  define rest where
    "rest = seq (set_company data) (seq (set_badge data) (seq (set_metrics data)
          (seq (set_recommendation_text data) (seq (set_report data)
          (seq (set_questions data) (set_verification bi data))))))"
  have "keeps outside_content rest"
    unfolding rest_def
    by (intro keeps_seq keeps_set_company keeps_set_badge keeps_set_metrics
        keeps_set_recommendation_text keeps_set_report keeps_set_questions
        keeps_set_verification)
  moreover have "displayResults bi data p = rest (p\<lparr>resultsSection := display_block\<rparr>)"
    unfolding rest_def displayResults_def show_results_def
    by (subst seq_def) (simp add: assign_def)
  ultimately show ?thesis by (simp add: keeps_def)
qed

lemma advances_refl: "advances p p"
  by (simp add: advances_def)

lemma advances_trans: "advances p p' \<Longrightarrow> advances p' p'' \<Longrightarrow> advances p p''"
  by (auto simp: advances_def)

lemma advances_outside:
  "outside_content p' = outside_content (p\<lparr>resultsSection := display_block\<rparr>) \<Longrightarrow>
   advances p p'"
  by (simp add: advances_def outside_content_def marked_completed_def)

lemma progresses_seq: "progresses f \<Longrightarrow> progresses g \<Longrightarrow> progresses (seq f g)"
  unfolding progresses_def
proof
  fix p
  assume f: "\<forall>p. advances p (fst (f p))" and g: "\<forall>p. advances p (fst (g p))"
  show "advances p (fst (seq f g p))"
  proof (cases "f p")
    case (Pair p' r)
    with f have a: "advances p p'" by (metis fst_conv)
    show ?thesis
    proof (cases r)
      case None
      with Pair a g show ?thesis by (auto simp: fst_seq intro: advances_trans)
    next
      case (Some e)
      with Pair a show ?thesis by (simp add: fst_seq)
    qed
  qed
qed

lemma progresses_skip: "progresses (assign id)"
  by (simp add: progresses_def assign_def advances_refl)

lemma progresses_throw: "progresses (throw e)"
  by (simp add: progresses_def throw_def advances_refl)

lemma progresses_updateProgress: "progresses (updateProgress stage isDone)"
  by (auto simp: progresses_def updateProgress_def advances_def marked_completed_def mark_def
      split: option.splits)

lemma progresses_addActivityLog: "progresses (addActivityLog data)"
  by (auto simp: progresses_def addActivityLog_def advances_def marked_completed_def
      split: option.splits sum.splits json.splits prod.splits)

lemma progresses_showError: "progresses (showError m)"
  by (auto simp: progresses_def showError_def advances_def marked_completed_def
      split: option.splits)

lemma progresses_enable_button: "progresses (enable_button l)"
  by (auto simp: progresses_def enable_button_def assign_def advances_def marked_completed_def)

lemma progresses_displayResults: "progresses (displayResults bi data)"
  by (simp add: progresses_def advances_outside displayResults_outside)

lemma progresses_dispatch: "progresses (dispatch bi ty data)"
proof -
  have "progresses (\<lambda>p. case (get data ''stage'', get data ''done'') of
                (Inr stage, Inr isDone) \<Rightarrow> updateProgress stage isDone p
              | _ \<Rightarrow> (p, Some TypeError))"
    using progresses_updateProgress
    by (auto simp: progresses_def advances_refl split: sum.splits)
  moreover have "progresses (\<lambda>p. case get data ''message'' of
                Inl e \<Rightarrow> (p, Some e)
              | Inr m \<Rightarrow> seq (showError m) (enable_button ''Try Again'') p)"
    using progresses_seq[OF progresses_showError progresses_enable_button]
    by (auto simp: progresses_def advances_refl split: sum.splits)
  ultimately show ?thesis
    by (simp add: dispatch_def progresses_addActivityLog progresses_skip
        progresses_seq progresses_displayResults progresses_enable_button)
qed

lemma progresses_handle_line: "progresses (handle_line bi line)"
  by (simp add: handle_line_def progresses_skip progresses_throw progresses_dispatch
      split: decoded.splits)

lemma progresses_for_lines: "progresses (for_lines bi lines)"
  by (induction lines) (simp_all add: progresses_skip progresses_seq progresses_handle_line)

lemma progresses_stream_end: "progresses (stream_end fails)"
  by (simp add: progresses_def stream_end_def advances_refl)

lemma progresses_read_loop: "progresses (read_loop bi vs fails buffer)"
proof (induction vs arbitrary: buffer)
  case Nil
  show ?case by (simp add: read_loop_Nil progresses_stream_end)
next
  case (Cons v vs)
  show ?case
    by (simp only: read_loop_Cons) (intro progresses_seq progresses_for_lines Cons.IH)
qed

lemma advances_catch_block: "advances p (catch_block p)"
  by (simp add: catch_block_def showError_def log_console_def advances_def marked_completed_def)

lemma advances_settle: "advances p (fst r) \<Longrightarrow> advances p (settle r)"
  by (cases r)
     (auto simp: settle_def split: option.splits intro: advances_trans advances_catch_block)

lemma advances_step:
  "x \<noteq> Click \<Longrightarrow> advances (the_page w) (the_page (step bi x w))"
proof (cases x)
  case (ChunkArrives i v)
  have a: "advances (the_page w) (fst (for_lines bi ls (the_page w)))" for ls
    using progresses_for_lines by (simp add: progresses_def)
  show ?thesis
    using a[of "butlast (split_nn (b @ v))" for b]
    by (auto simp: ChunkArrives on_chunk_def Let_def fail_handler_def advances_refl
        split: handler.splits prod.splits option.splits
        intro: advances_trans[OF _ advances_catch_block])
       (metis fst_conv advances_trans advances_catch_block)+
qed (auto simp: fail_handler_def advances_refl advances_catch_block split: handler.splits)

lemma trim_blank: "trim s = [] \<longleftrightarrow> (\<forall>c \<in> set s. is_js_space c)"
proof
  assume "trim s = []"
  then have all: "\<forall>x \<in> set (dropWhile is_js_space s). is_js_space x"
    by (simp add: trim_def dropWhile_eq_Nil_conv)
  have "dropWhile is_js_space s = []"
  proof (rule ccontr)
    assume ne: "dropWhile is_js_space s \<noteq> []"
    then have "\<not> is_js_space (hd (dropWhile is_js_space s))" by (rule hd_dropWhile)
    moreover have "hd (dropWhile is_js_space s) \<in> set (dropWhile is_js_space s)"
      using ne by simp
    ultimately show False using all by blast
  qed
  then show "\<forall>c \<in> set s. is_js_space c" by (simp add: dropWhile_eq_Nil_conv)
next
  assume "\<forall>c \<in> set s. is_js_space c"
  then show "trim s = []" by (auto simp: trim_def dest: set_dropWhileD)
qed


section \<open>The progress stepper\<close>

text \<open>
  C5. From a page whose four stage elements carry neither class, the events
  status{planning, active}, status{planning, done}, status{searching, active} are
  dispatched without exception and leave planning with the class \<^verbatim>\<open>completed\<close> only,
  searching with the class \<^verbatim>\<open>active\<close> only, and writing and verifying without either.
  In general a status event for an existing stage element changes the page in that
  element only: with a truthy \<^verbatim>\<open>done\<close> it adds \<^verbatim>\<open>completed\<close> and removes
  \<^verbatim>\<open>active\<close>, otherwise it adds \<^verbatim>\<open>active\<close>.
\<close>

theorem status_events_mark_stages:
  assumes "\<forall>s \<in> set stage_names. steps p s = Some pending"
  shows "(\<exists>p'. seq (dispatch bi ''status'' planning_active)
               (seq (dispatch bi ''status'' planning_done)
                    (dispatch bi ''status'' searching_active)) p = (p', None) \<and>
            steps p' ''planning'' = Some done_only \<and>
            steps p' ''searching'' = Some active_only \<and>
            steps p' ''writing'' = Some pending \<and>
            steps p' ''verifying'' = Some pending) \<and>
         (\<forall>data name d q c.
            get data ''stage'' = Inr (Some (JStr name)) \<and> get data ''done'' = Inr d \<and>
            steps q name = Some c \<longrightarrow>
            dispatch bi ''status'' data q =
              (q\<lparr>steps := (steps q)(name \<mapsto>
                    (if truthy d then c\<lparr>cls_completed := True, cls_active := False\<rparr>
                     else c\<lparr>cls_active := True\<rparr>))\<rparr>, None))"
proof
  from assms have s: "steps p ''planning'' = Some pending" "steps p ''searching'' = Some pending"
    "steps p ''writing'' = Some pending" "steps p ''verifying'' = Some pending"
    by (simp_all add: stage_names_def)
  show "\<exists>p'. seq (dispatch bi ''status'' planning_active)
               (seq (dispatch bi ''status'' planning_done)
                    (dispatch bi ''status'' searching_active)) p = (p', None) \<and>
            steps p' ''planning'' = Some done_only \<and>
            steps p' ''searching'' = Some active_only \<and>
            steps p' ''writing'' = Some pending \<and>
            steps p' ''verifying'' = Some pending"
    using s
    by (simp add: seq_def dispatch_def updateProgress_def planning_active_def planning_done_def
        searching_active_def mark_def pending_def done_only_def active_only_def)
next
  show "\<forall>data name d q c.
            get data ''stage'' = Inr (Some (JStr name)) \<and> get data ''done'' = Inr d \<and>
            steps q name = Some c \<longrightarrow>
            dispatch bi ''status'' data q =
              (q\<lparr>steps := (steps q)(name \<mapsto>
                    (if truthy d then c\<lparr>cls_completed := True, cls_active := False\<rparr>
                     else c\<lparr>cls_active := True\<rparr>))\<rparr>, None)"
    by (simp add: dispatch_def updateProgress_def mark_def)
qed

text \<open>On the sample page the three events leave exactly this stage map.\<close>

theorem status_events_mark_stages_witness:
  "steps (fst (seq (dispatch sample_builtins ''status'' planning_active)
               (seq (dispatch sample_builtins ''status'' planning_done)
                    (dispatch sample_builtins ''status'' searching_active)) page0)) =
   [''planning'' \<mapsto> done_only, ''searching'' \<mapsto> active_only,
    ''writing'' \<mapsto> pending, ''verifying'' \<mapsto> pending]"
proof -
  have h: "\<forall>s \<in> set stage_names. steps page0 s = Some pending"
    by (simp add: stage_names_def page0_def)
  from status_events_mark_stages[OF h, of sample_builtins]
  obtain p' where p': "seq (dispatch sample_builtins ''status'' planning_active)
               (seq (dispatch sample_builtins ''status'' planning_done)
                    (dispatch sample_builtins ''status'' searching_active)) page0 = (p', None)"
    "steps p' ''planning'' = Some done_only" "steps p' ''searching'' = Some active_only"
    "steps p' ''writing'' = Some pending" "steps p' ''verifying'' = Some pending"
    by blast
  have dom: "\<And>s. s \<notin> set stage_names \<Longrightarrow> steps p' s = None"
    using p'(1)
    by (auto simp: seq_def dispatch_def updateProgress_def planning_active_def planning_done_def
        searching_active_def page0_def stage_names_def split: if_splits)
  show ?thesis
  proof (simp add: p'(1), rule ext)
    fix s
    show "steps p' s =
      [''planning'' \<mapsto> done_only, ''searching'' \<mapsto> active_only, ''writing'' \<mapsto> pending,
       ''verifying'' \<mapsto> pending] s"
      using p'(2-5) dom[of s] by (auto simp: stage_names_def)
  qed
qed

text \<open>
  C6, as the code has it. Once the element of a stage carries the class
  \<^verbatim>\<open>completed\<close>, it carries it after every event the dispatcher handles, after the
  rest of the stream however it ends (the \<^verbatim>\<open>catch\<close> block included), and after
  every occurrence of a handler instance (a response, a chunk, the end or the failure
  of a stream): the stage never goes back to pending. It does not stay done, though: a later
  status event for that stage whose \<^verbatim>\<open>done\<close> is falsy puts the class \<^verbatim>\<open>active\<close>
  back, and the element then carries both classes.
\<close>

theorem completed_marking_persists:
  assumes "marked_completed s p"
  shows "marked_completed s (fst (dispatch bi ty data p)) \<and>
         marked_completed s (settle (read_loop bi vs fails buffer p)) \<and>
         (x \<noteq> Click \<longrightarrow>
            marked_completed s (the_page (step bi x \<lparr>the_page = p, handlers = hs\<rparr>))) \<and>
         (\<forall>d. get data ''stage'' = Inr (Some (JStr s)) \<and> get data ''done'' = Inr d \<and>
              \<not> truthy d \<longrightarrow>
              (\<exists>c'. dispatch bi ''status'' data p = (p\<lparr>steps := (steps p)(s \<mapsto> c')\<rparr>, None) \<and>
                    cls_active c' \<and> cls_completed c'))"
proof -
  have "advances p (fst (dispatch bi ty data p))"
    using progresses_dispatch by (simp add: progresses_def)
  moreover have "advances p (settle (read_loop bi vs fails buffer p))"
    using progresses_read_loop by (simp add: progresses_def advances_settle)
  moreover have "x \<noteq> Click \<Longrightarrow>
      advances p (the_page (step bi x \<lparr>the_page = p, handlers = hs\<rparr>))"
    using advances_step[of x "\<lparr>the_page = p, handlers = hs\<rparr>" bi] by simp
  moreover have "\<forall>d. get data ''stage'' = Inr (Some (JStr s)) \<and> get data ''done'' = Inr d \<and>
              \<not> truthy d \<longrightarrow>
              (\<exists>c'. dispatch bi ''status'' data p = (p\<lparr>steps := (steps p)(s \<mapsto> c')\<rparr>, None) \<and>
                    cls_active c' \<and> cls_completed c')"
  proof (intro allI impI)
    fix d
    assume h: "get data ''stage'' = Inr (Some (JStr s)) \<and> get data ''done'' = Inr d \<and>
              \<not> truthy d"
    from assms obtain c where c: "steps p s = Some c" "cls_completed c"
      by (auto simp: marked_completed_def split: option.splits)
    have "dispatch bi ''status'' data p =
          (p\<lparr>steps := (steps p)(s \<mapsto> c\<lparr>cls_active := True\<rparr>)\<rparr>, None)"
      using h c(1) by (simp add: dispatch_def updateProgress_def mark_def)
    moreover have "cls_active (c\<lparr>cls_active := True\<rparr>) \<and> cls_completed (c\<lparr>cls_active := True\<rparr>)"
      using c(2) by simp
    ultimately show "\<exists>c'. dispatch bi ''status'' data p =
        (p\<lparr>steps := (steps p)(s \<mapsto> c')\<rparr>, None) \<and> cls_active c' \<and> cls_completed c'"
      by blast
  qed
  ultimately show ?thesis using assms by (auto simp: advances_def)
qed

text \<open>Planning, marked done on the sample page, keeps the class \<^verbatim>\<open>completed\<close> after a
  later status event for planning without \<^verbatim>\<open>done\<close>, after a stream that ends with an
  error event, and after a chunk delivered to a reading handler; the status event
  leaves it with both classes.\<close>

theorem completed_marking_persists_witness:
  "marked_completed ''planning'' planning_done_page \<and>
   marked_completed ''planning''
     (fst (dispatch sample_builtins ''status'' planning_active planning_done_page)) \<and>
   marked_completed ''planning''
     (settle (read_loop sample_builtins
        [frame ''status'' planning_active_text, frame ''error'' error_text] False []
        planning_done_page)) \<and>
   marked_completed ''planning''
     (the_page (step sample_builtins (ChunkArrives 0 (frame ''status'' planning_active_text))
        \<lparr>the_page = planning_done_page, handlers = [Reading []]\<rparr>)) \<and>
   (\<exists>c'. dispatch sample_builtins ''status'' planning_active planning_done_page =
        (planning_done_page\<lparr>steps := (steps planning_done_page)(''planning'' \<mapsto> c')\<rparr>, None) \<and>
      cls_active c' \<and> cls_completed c')"
proof -
  have h: "marked_completed ''planning'' planning_done_page"
    by code_simp
  have x: "ChunkArrives 0 (frame ''status'' planning_active_text) \<noteq> Click"
    by simp
  have g: "get planning_active ''stage'' = Inr (Some (JStr ''planning'')) \<and>
           get planning_active ''done'' = Inr (Some (JBool False)) \<and>
           \<not> truthy (Some (JBool False))"
    by code_simp
  show ?thesis
    using h x g completed_marking_persists[OF h, of sample_builtins "''status''" planning_active
        "[frame ''status'' planning_active_text, frame ''error'' error_text]" False "[]"
        "ChunkArrives 0 (frame ''status'' planning_active_text)" "[Reading []]"]
    by simp
qed

text \<open>
  Against C6 as stated: planning is done on the sample page, with the class
  \<^verbatim>\<open>completed\<close> and without \<^verbatim>\<open>active\<close>; after the event status{planning, active}
  it carries \<^verbatim>\<open>active\<close> again.
\<close>

theorem done_stage_reactivated_counterexample:
  "steps planning_done_page ''planning'' = Some done_only \<and>
   steps (fst (dispatch sample_builtins ''status'' planning_active planning_done_page))
     ''planning'' = Some \<lparr>cls_active = True, cls_completed = True\<rparr> \<and>
   steps (fst (dispatch sample_builtins ''status'' planning_active planning_done_page))
     ''planning'' \<noteq> Some done_only"
  by code_simp

section \<open>The recommendation badge\<close>

lemma keeps_badge_metrics: "keeps badge (set_metrics data)"
  by (simp add: keeps_def set_metrics_def badge_def split: sum.splits option.splits json.splits)

lemma keeps_badge_text: "keeps badge (set_recommendation_text data)"
  by (simp add: keeps_def set_recommendation_text_def badge_def
      split: sum.splits option.splits json.splits)

lemma keeps_badge_report: "keeps badge (set_report data)"
  by (simp add: keeps_def set_report_def badge_def split: sum.splits option.splits json.splits)

lemma append_questions_badge: "badge (fst (append_questions qs p)) = badge p"
  by (induction qs arbitrary: p) (simp_all add: badge_def split: option.splits)

lemma keeps_badge_questions: "keeps badge (set_questions data)"
  unfolding set_questions_def
  by (rule keeps_seq)
     (simp_all add: keeps_def assign_def append_questions_badge
        split: sum.splits option.splits json.splits, simp add: badge_def)

lemma keeps_badge_verification: "keeps badge (set_verification bi data)"
  by (simp add: keeps_def set_verification_def badge_def
      split: sum.splits option.splits json.splits prod.splits)

lemma displayResults_badge:
  assumes "get data ''short_summary'' = Inr (Some (JStr s))"
  shows "badge (fst (displayResults bi data p)) = recommendation (toLowerCase s)"
proof -
  define rest where
    "rest = seq (set_metrics data) (seq (set_recommendation_text data) (seq (set_report data)
          (seq (set_questions data) (set_verification bi data))))"
  have k: "keeps badge rest"
    unfolding rest_def
    by (intro keeps_seq keeps_badge_metrics keeps_badge_text keeps_badge_report
        keeps_badge_questions keeps_badge_verification)
  have "displayResults bi data p =
        rest (p\<lparr>resultsSection := display_block, stockName := extractCompanyName s,
                badge_text := fst (recommendation (toLowerCase s)),
                badge_class := snd (recommendation (toLowerCase s))\<rparr>)"
    unfolding displayResults_def rest_def[symmetric]
    using assms
    by (simp add: seq_def show_results_def assign_def set_company_def set_badge_def)
  then show ?thesis using k by (simp add: keeps_def badge_def)
qed

text \<open>
  C7. For a result whose \<^verbatim>\<open>short_summary\<close> is a string, \<^verbatim>\<open>displayResults\<close> leaves
  the badge reading Buy when the lowercased summary contains buy, strong or positive;
  otherwise Sell when it contains sell, negative or avoid; otherwise Hold. The Buy
  words are tested first, so they win when words of both sets occur. This is so
  whether or not a later part of \<^verbatim>\<open>displayResults\<close> throws.
\<close>

theorem recommendation_classification:
  assumes "get data ''short_summary'' = Inr (Some (JStr s))"
  shows "badge_text (fst (displayResults bi data p)) =
           (if contains (toLowerCase s) ''buy'' \<or> contains (toLowerCase s) ''strong''
               \<or> contains (toLowerCase s) ''positive'' then ''Buy''
            else if contains (toLowerCase s) ''sell'' \<or> contains (toLowerCase s) ''negative''
               \<or> contains (toLowerCase s) ''avoid'' then ''Sell''
            else ''Hold'')"
proof -
  have "badge_text (fst (displayResults bi data p)) = fst (recommendation (toLowerCase s))"
    using displayResults_badge[OF assms, of bi p] by (simp add: badge_def prod_eq_iff)
  then show ?thesis
    by (simp add: recommendation_def str_includes_contains)
qed

text \<open>The summary of the specification holds a Buy word and a Sell word, and the badge
  reads Buy.\<close>

theorem recommendation_classification_witness:
  "get complete_json ''short_summary'' =
     Inr (Some (JStr ''We recommend a strong buy despite some negative risk'')) \<and>
   contains (toLowerCase ''We recommend a strong buy despite some negative risk'') ''buy'' \<and>
   contains (toLowerCase ''We recommend a strong buy despite some negative risk'') ''negative'' \<and>
   badge_text (fst (displayResults sample_builtins complete_json page0)) = ''Buy''"
proof -
  have h: "get complete_json ''short_summary'' =
     Inr (Some (JStr ''We recommend a strong buy despite some negative risk''))"
    by code_simp
  have b: "str_includes (toLowerCase ''We recommend a strong buy despite some negative risk'')
      ''buy''"
    by code_simp
  have n: "str_includes (toLowerCase ''We recommend a strong buy despite some negative risk'')
      ''negative''"
    by code_simp
  show ?thesis
    using h b n recommendation_classification[OF h, of sample_builtins page0]
    by (simp add: str_includes_contains)
qed

section \<open>A click with a blank query\<close>

text \<open>
  C10. When the query consists of white space only (or is empty), the click handler
  returns the page as it found it: nothing is reset, no request is recorded, and no
  instance of the handler is left waiting.
\<close>

theorem blank_query_click_is_noop:
  assumes "\<forall>c \<in> set (queryInput p). is_js_space c"
  shows "analyze_click p = p \<and>
         step bi Click \<lparr>the_page = p, handlers = hs\<rparr> = \<lparr>the_page = p, handlers = hs\<rparr>"
proof -
  from assms have "trim (queryInput p) = []" by (simp add: trim_blank)
  then show ?thesis by (simp add: analyze_click_def)
qed

theorem blank_query_click_is_noop_witness:
  "analyze_click blank_query_page = blank_query_page \<and>
   fetches (analyze_click blank_query_page) = [] \<and>
   step sample_builtins Click \<lparr>the_page = blank_query_page, handlers = []\<rparr> =
     \<lparr>the_page = blank_query_page, handlers = []\<rparr>"
proof -
  have h: "\<forall>c \<in> set (queryInput blank_query_page). is_js_space c"
    by (simp add: blank_query_page_def is_js_space_def)
  have f: "fetches blank_query_page = []"
    by (simp add: blank_query_page_def page0_def)
  show ?thesis
    using blank_query_click_is_noop[OF h, of sample_builtins "[]"] f by simp
qed


section \<open>A record with malformed data\<close>




section \<open>An instance alone on the page runs the loop\<close>

text \<open>
  When nothing else happens on the page, the occurrences of one instance, its
  response, its chunks in order and the end of its stream, leave the page that
  \<open>research\<close> computes for that stream.
\<close>

lemma returned_ignores:
  assumes "handler_at w i = Returned"
  shows "run bi (map (ChunkArrives i) vs @ [StreamEnds i]) w = w"
  using assms
proof (induction vs arbitrary: w)
  case Nil
  then show ?case by simp
next
  case (Cons v vs)
  then show ?case by simp
qed

lemma handler_at_update:
  "i < length (handlers w) \<Longrightarrow>
   handler_at (w\<lparr>the_page := p, handlers := (handlers w)[i := h]\<rparr>) i = h"
  by (simp add: handler_at_def)

lemma reading_runs_read_loop:
  assumes "handler_at w i = Reading buffer"
  shows "the_page (run bi (map (ChunkArrives i) vs @ [StreamEnds i]) w) =
         settle (read_loop bi vs False buffer (the_page w))"
  using assms
proof (induction vs arbitrary: w buffer)
  case Nil
  then show ?case by (simp add: settle_def stream_end_def)
next
  case (Cons v vs)
  from Cons.prems have len: "i < length (handlers w)"
    by (auto simp: handler_at_def split: if_splits)
  obtain p' r b' where oc: "on_chunk bi buffer v (the_page w) = ((p', r), b')"
    by (metis prod.collapse)
  show ?case
  proof (cases r)
    case None
    let ?w' = "w\<lparr>the_page := p', handlers := (handlers w)[i := Reading b']\<rparr>"
    have st: "step bi (ChunkArrives i v) w = ?w'"
      using Cons.prems oc None by simp
    have "handler_at ?w' i = Reading b'" using len by (rule handler_at_update)
    from Cons.IH[OF this] show ?thesis
      using st oc None by simp
  next
    case (Some e)
    let ?w' = "fail_handler i p' w"
    have st: "step bi (ChunkArrives i v) w = ?w'"
      using Cons.prems oc Some by simp
    have "handler_at ?w' i = Returned"
      using len by (simp add: fail_handler_def handler_at_def)
    from returned_ignores[OF this] show ?thesis
      using st oc Some by (simp add: settle_def fail_handler_def)
  qed
qed

lemma world_runs_research:
  assumes "handler_at w i = AwaitingResponse"
  shows "the_page (run bi (ResponseArrives i True # map (ChunkArrives i) vs @ [StreamEnds i]) w) =
         research bi (Stream True vs False) (the_page w)"
proof -
  from assms have len: "i < length (handlers w)"
    by (auto simp: handler_at_def split: if_splits)
  let ?w' = "w\<lparr>handlers := (handlers w)[i := Reading []]\<rparr>"
  have "handler_at ?w' i = Reading []" using len by (simp add: handler_at_def)
  from reading_runs_read_loop[OF this, of bi vs] show ?thesis
    using assms by (simp add: research_def research_try_def)
qed

section \<open>Events of an earlier submission\<close>

text \<open>
  C2, as the code has it. The handler keeps no generation: a chunk that arrives for
  any instance that is reading its stream, whichever click started it, is decoded with
  that instance's buffer and dispatched on the page as it is now, and the
  \<^verbatim>\<open>catch\<close> block runs on that page when the chunk makes the instance throw.
\<close>

theorem stale_events_reach_the_page:
  assumes "handler_at w i = Reading b"
  shows "the_page (step bi (ChunkArrives i v) w) = settle (fst (on_chunk bi b v (the_page w)))"
  using assms
  by (simp add: settle_def fail_handler_def split: prod.splits option.splits)

text \<open>After the second submission both instances read with an empty buffer, and the same
  chunk has the same effect on the page whether it arrives for the first or the
  second.\<close>

theorem stale_events_reach_the_page_witness:
  "handler_at second_submit_world 0 = Reading [] \<and>
   handler_at second_submit_world 1 = Reading [] \<and>
   the_page (step sample_builtins (ChunkArrives 0 (frame ''agent_log'' log_text))
      second_submit_world) =
   the_page (step sample_builtins (ChunkArrives 1 (frame ''agent_log'' log_text))
      second_submit_world)"
proof -
  have h0: "handler_at second_submit_world 0 = Reading []" by code_simp
  have h1: "handler_at second_submit_world 1 = Reading []" by code_simp
  show ?thesis
    using h0 h1
      stale_events_reach_the_page[OF h0, of sample_builtins "frame ''agent_log'' log_text"]
      stale_events_reach_the_page[OF h1, of sample_builtins "frame ''agent_log'' log_text"]
    by simp
qed

text \<open>
  Against C2 as stated: after the second click the second run is in progress with an
  empty log; a log event that then arrives on the stream of the first submission is
  appended to that log.
\<close>

theorem stale_event_counterexample:
  "handlers second_submit_world = [Reading [], Reading []] \<and>
   btn_text (the_page second_submit_world) = ''Analyzing...'' \<and>
   activityLogContent (the_page second_submit_world) = [] \<and>
   activityLogContent (the_page
     (step sample_builtins (ChunkArrives 0 (frame ''agent_log'' log_text)) second_submit_world)) =
     [\<lparr>log_time = Some (JStr ''2025-01-01T10:00:00''), log_agent = ''Planner'',
       log_action = ''Planning searches'', log_details = None\<rparr>]"
  by code_simp

section \<open>Failures of the side-channel loaders\<close>

lemma run_regions_loadChart_try:
  "run_regions (fst (loadChart_try c r f p)) = run_regions p"
  by (simp add: loadChart_try_def show_canvas_def run_regions_def log_console_def Let_def
      split: reply.splits option.splits sum.splits prod.splits)

lemma run_regions_loadHistory_try:
  "run_regions (fst (loadHistory_try bi r p)) = run_regions p"
  by (simp add: loadHistory_try_def run_regions_def
      split: reply.splits option.splits sum.splits prod.splits json.splits bool.splits)

lemma stepper_log_button_loadHistoricalResearch_try:
  "stepper_log_button (fst (loadHistoricalResearch_try bi r p)) = stepper_log_button p"
proof -
  have "stepper_log_button (fst (displayResults bi d q)) = stepper_log_button q" for d q
    using displayResults_outside[of bi d q]
    by (simp add: outside_content_def stepper_log_button_def)
  then show ?thesis
    by (simp add: loadHistoricalResearch_try_def Let_def stepper_log_button_def
        split: reply.splits option.splits sum.splits)
qed

text \<open>
  C8, as the code has it. The chart loader and the history-list loader, whatever comes
  back, leave the regions of the run as they are. A rejected chart request is logged.
  A non-success chart response is logged; while the canvas the load looked up is the
  one in the document it is answered with the hidden canvas and the No Data
  placeholder, which replaces the canvas; once an earlier reply has replaced that
  canvas, the line that adds the placeholder throws, the \<^verbatim>\<open>catch\<close> block logs a
  second time and no placeholder is added. A rejected history request is logged and
  answered with the failure placeholder. The history-detail loader leaves the two
  sections of a run, the stepper, the log and the button as they are, but its
  \<^verbatim>\<open>catch\<close> block calls \<^verbatim>\<open>showError\<close>: a rejected request is logged and shows the
  error banner of the run with its own message.
\<close>

theorem loaders_contained:
  "run_regions (loadChart_call q p) = run_regions p \<and>
   run_regions (loadChart_reply c r f p) = run_regions p \<and>
   run_regions (loadHistory_call p) = run_regions p \<and>
   run_regions (loadHistory_reply bi r p) = run_regions p \<and>
   stepper_log_button (loadHistoricalResearch_call i p) = stepper_log_button p \<and>
   stepper_log_button (loadHistoricalResearch_reply bi r p) = stepper_log_button p \<and>
   loadChart_reply c Rejected f p = log_console ''Failed to load chart:'' p \<and>
   (stockChart p = Some c \<longrightarrow>
      loadChart_reply c (Response False body) f p =
        (log_console ''No chart data available'' p)
          \<lparr>canvas_display := display_none, chart_placeholders := Suc (chart_placeholders p),
           stockChart := Some (Suc c)\<rparr>) \<and>
   (stockChart p \<noteq> Some c \<longrightarrow>
      loadChart_reply c (Response False body) f p =
        log_console ''Failed to load chart:'' (log_console ''No chart data available'' p)) \<and>
   loadHistory_reply bi Rejected p =
     (log_console ''Failed to load history:'' p)\<lparr>historyList := HistoryFailed\<rparr> \<and>
   loadHistoricalResearch_reply bi Rejected p =
     (log_console ''Failed to load historical research:'' p)
       \<lparr>errorMessage := ''Failed to load historical research'',
        errorSection := display_block\<rparr>"
proof -
  have a: "run_regions (loadChart_call q p) = run_regions p"
    by (simp add: loadChart_call_def run_regions_def)
  have b: "run_regions (loadChart_reply c r f p) = run_regions p"
    using run_regions_loadChart_try[of c r f p]
    by (cases "loadChart_try c r f p")
       (auto simp: loadChart_reply_def run_regions_def log_console_def split: option.splits)
  have c: "run_regions (loadHistory_call p) = run_regions p"
    by (simp add: loadHistory_call_def run_regions_def)
  have d: "run_regions (loadHistory_reply bi r p) = run_regions p"
    using run_regions_loadHistory_try[of bi r p]
    by (cases "loadHistory_try bi r p")
       (auto simp: loadHistory_reply_def run_regions_def log_console_def split: option.splits)
  have e: "stepper_log_button (loadHistoricalResearch_call i p) = stepper_log_button p"
    by (simp add: loadHistoricalResearch_call_def loadHistoricalResearch_catch_def
        showError_def log_console_def stepper_log_button_def split: option.splits)
  have f: "stepper_log_button (loadHistoricalResearch_reply bi r p) = stepper_log_button p"
    using stepper_log_button_loadHistoricalResearch_try[of bi r p]
    by (cases "loadHistoricalResearch_try bi r p")
       (auto simp: loadHistoricalResearch_reply_def loadHistoricalResearch_catch_def
          showError_def log_console_def stepper_log_button_def split: option.splits)
  have g: "loadChart_reply c Rejected f p = log_console ''Failed to load chart:'' p"
    by (simp add: loadChart_reply_def loadChart_try_def)
  have h1: "stockChart p = Some c \<longrightarrow>
      loadChart_reply c (Response False body) f p =
        (log_console ''No chart data available'' p)
          \<lparr>canvas_display := display_none, chart_placeholders := Suc (chart_placeholders p),
           stockChart := Some (Suc c)\<rparr>"
    by (simp add: loadChart_reply_def loadChart_try_def show_canvas_def log_console_def Let_def)
  have h2: "stockChart p \<noteq> Some c \<longrightarrow>
      loadChart_reply c (Response False body) f p =
        log_console ''Failed to load chart:'' (log_console ''No chart data available'' p)"
    by (simp add: loadChart_reply_def loadChart_try_def show_canvas_def log_console_def Let_def)
  have i: "loadHistory_reply bi Rejected p =
     (log_console ''Failed to load history:'' p)\<lparr>historyList := HistoryFailed\<rparr>"
    by (simp add: loadHistory_reply_def loadHistory_try_def)
  have j: "loadHistoricalResearch_reply bi Rejected p =
     (log_console ''Failed to load historical research:'' p)
       \<lparr>errorMessage := ''Failed to load historical research'',
        errorSection := display_block\<rparr>"
    by (simp add: loadHistoricalResearch_reply_def loadHistoricalResearch_try_def
        loadHistoricalResearch_catch_def showError_def)
  show ?thesis using a b c d e f g h1 h2 i j by (simp only: simp_thms)
qed

text \<open>
  Two chart loads are pending on the running page, both holding canvas 0. The first
  non-success reply adds the one placeholder and replaces the canvas; the second finds
  its canvas detached, adds none and is logged twice. A rejected history-detail
  request shows the error banner.
\<close>

theorem loaders_contained_witness:
  "stockChart running_page = Some 0 \<and>
   run_regions chart_refused_page = run_regions running_page \<and>
   chart_placeholders chart_refused_page = 1 \<and>
   stockChart chart_refused_page = Some 1 \<and>
   chart_placeholders (loadChart_reply 0 (Response False None) False chart_refused_page) = 1 \<and>
   console (loadChart_reply 0 (Response False None) False chart_refused_page) =
     [''No chart data available'', ''No chart data available'', ''Failed to load chart:''] \<and>
   errorSection (loadHistoricalResearch_reply sample_builtins Rejected running_page) =
     display_block"
proof -
  have c0: "stockChart running_page = Some 0" by code_simp
  have c1: "chart_placeholders running_page = 0" by code_simp
  have c2: "console running_page = []" by code_simp
  note t = loaders_contained[of "[]" running_page 0 "Response False None" False
      sample_builtins None None]
  from t have r1: "run_regions chart_refused_page = run_regions running_page"
    unfolding chart_refused_page_def by blast
  from t c0 have first: "chart_refused_page =
     (log_console ''No chart data available'' running_page)
       \<lparr>canvas_display := display_none,
        chart_placeholders := Suc (chart_placeholders running_page),
        stockChart := Some (Suc 0)\<rparr>"
    unfolding chart_refused_page_def by blast
  have r2: "chart_placeholders chart_refused_page = 1"
    by (simp add: first c1)
  have r3: "stockChart chart_refused_page = Some 1"
    by (simp add: first)
  have r4: "console chart_refused_page = [''No chart data available'']"
    by (simp add: first c2 log_console_def)
  note u = loaders_contained[of "[]" chart_refused_page 0 "Response False None" False
      sample_builtins None None]
  from u r3 have second: "loadChart_reply 0 (Response False None) False chart_refused_page =
     log_console ''Failed to load chart:''
       (log_console ''No chart data available'' chart_refused_page)"
    by simp
  have r5: "chart_placeholders (loadChart_reply 0 (Response False None) False
      chart_refused_page) = 1"
    using second r2 by (simp add: log_console_def)
  have r6: "console (loadChart_reply 0 (Response False None) False chart_refused_page) =
     [''No chart data available'', ''No chart data available'', ''Failed to load chart:'']"
    using second r4 by (simp add: log_console_def)
  from t have "loadHistoricalResearch_reply sample_builtins Rejected running_page =
     (log_console ''Failed to load historical research:'' running_page)
       \<lparr>errorMessage := ''Failed to load historical research'',
        errorSection := display_block\<rparr>"
    by blast
  then have r7: "errorSection (loadHistoricalResearch_reply sample_builtins Rejected
      running_page) = display_block"
    by simp
  show ?thesis using c0 r1 r2 r3 r5 r6 r7 by blast
qed

text \<open>
  Against C8 as stated: while a run is in progress and shows no error, a rejected
  history-detail request shows the error banner of the run; a non-success response
  with a JSON body also shows the result section before the banner.
\<close>

theorem loader_failure_counterexample:
  "errorSection running_page = display_none \<and>
   errorSection (loadHistoricalResearch_reply sample_builtins Rejected running_page) =
     display_block \<and>
   errorMessage (loadHistoricalResearch_reply sample_builtins Rejected running_page) =
     ''Failed to load historical research'' \<and>
   resultsSection running_page = display_none \<and>
   resultsSection (loadHistoricalResearch_reply sample_builtins (Response False (Some not_found))
     running_page) = display_block \<and>
   errorSection (loadHistoricalResearch_reply sample_builtins (Response False (Some not_found))
     running_page) = display_block"
  by code_simp

section \<open>Events after a terminal event\<close>

text \<open>
  C9, as the code has it. The dispatcher tests no phase. Once the button is enabled,
  as a complete or error event leaves it, no event and no continuation of the stream
  disables it again and none removes an entry of the log, and a log event handled
  without exception appends exactly one entry and changes nothing else. A later
  terminal event is not ignored:
  an error event whose message converts to text writes that message, shows the banner
  and relabels the button Try Again, and changes nothing else, so the result section
  stays as it is; a complete event handled without exception shows the result section
  and relabels the button Analyze New Query, and leaves the banner and its message as
  they are. The outcome established first is thus not protected: message and label
  are overwritten, and result and banner can be shown together.
\<close>

theorem terminal_events_not_guarded:
  assumes "\<not> btn_disabled p"
  shows "\<not> btn_disabled (fst (dispatch bi ty data p)) \<and>
         \<not> btn_disabled (settle (read_loop bi vs fails buffer p)) \<and>
         (\<exists>new. activityLogContent (fst (dispatch bi ty data p)) =
                 activityLogContent p @ new) \<and>
         (\<exists>new. activityLogContent (settle (read_loop bi vs fails buffer p)) =
                 activityLogContent p @ new) \<and>
         (\<forall>q. dispatch bi ''agent_log'' data p = (q, None) \<longrightarrow>
            (\<exists>e. q = p\<lparr>activityLogContent := activityLogContent p @ [e]\<rparr>)) \<and>
         (\<forall>m t. get data ''message'' = Inr m \<and> text_content m = Some t \<longrightarrow>
            dispatch bi ''error'' data p =
              (p\<lparr>errorMessage := t, errorSection := display_block, btn_disabled := False,
                 btn_text := ''Try Again''\<rparr>, None)) \<and>
         (\<forall>q. dispatch bi ''complete'' data p = (q, None) \<longrightarrow>
            btn_text q = ''Analyze New Query'' \<and> \<not> btn_disabled q \<and>
            resultsSection q = display_block \<and>
            errorSection q = errorSection p \<and> errorMessage q = errorMessage p)"
proof -
  have "advances p (fst (dispatch bi ty data p))"
    using progresses_dispatch by (simp add: progresses_def)
  moreover have "advances p (settle (read_loop bi vs fails buffer p))"
    using progresses_read_loop by (simp add: progresses_def advances_settle)
  moreover have "\<forall>q. dispatch bi ''agent_log'' data p = (q, None) \<longrightarrow>
            (\<exists>e. q = p\<lparr>activityLogContent := activityLogContent p @ [e]\<rparr>)"
    by (auto simp: dispatch_def addActivityLog_def
        split: prod.splits sum.splits option.splits json.splits)
  moreover have "\<forall>m t. get data ''message'' = Inr m \<and> text_content m = Some t \<longrightarrow>
            dispatch bi ''error'' data p =
              (p\<lparr>errorMessage := t, errorSection := display_block, btn_disabled := False,
                 btn_text := ''Try Again''\<rparr>, None)"
    by (simp add: dispatch_def seq_def showError_def enable_button_def assign_def)
  moreover have "\<forall>q. dispatch bi ''complete'' data p = (q, None) \<longrightarrow>
            btn_text q = ''Analyze New Query'' \<and> \<not> btn_disabled q \<and>
            resultsSection q = display_block \<and>
            errorSection q = errorSection p \<and> errorMessage q = errorMessage p"
  proof (intro allI impI)
    fix q
    assume d: "dispatch bi ''complete'' data p = (q, None)"
    then obtain r where r: "displayResults bi data p = (r, None)"
      and q: "q = r\<lparr>btn_disabled := False, btn_text := ''Analyze New Query''\<rparr>"
      by (auto simp: dispatch_def seq_def enable_button_def assign_def
          split: prod.splits option.splits)
    have "outside_content r = outside_content (p\<lparr>resultsSection := display_block\<rparr>)"
      using displayResults_outside[of bi data p] r by simp
    then have "resultsSection r = display_block \<and> errorSection r = errorSection p \<and>
        errorMessage r = errorMessage p"
      by (simp add: outside_content_def)
    with q show "btn_text q = ''Analyze New Query'' \<and> \<not> btn_disabled q \<and>
            resultsSection q = display_block \<and>
            errorSection q = errorSection p \<and> errorMessage q = errorMessage p"
      by simp
  qed
  ultimately show ?thesis using assms by (simp add: advances_def)
qed

text \<open>On the page a complete event left, a later stream keeps the button enabled, a log
  event appends its entry, and an error event is handled as on any page, the result
  section staying shown.\<close>

theorem terminal_events_not_guarded_witness:
  "btn_text completed_page = ''Analyze New Query'' \<and>
   resultsSection completed_page = display_block \<and>
   \<not> btn_disabled (settle (read_loop sample_builtins
       [frame ''agent_log'' log_text, frame ''error'' error_text] False [] completed_page)) \<and>
   (\<exists>e. fst (dispatch sample_builtins ''agent_log'' log_json completed_page) =
         completed_page\<lparr>activityLogContent := activityLogContent completed_page @ [e]\<rparr>) \<and>
   dispatch sample_builtins ''error'' error_json completed_page =
     (completed_page\<lparr>errorMessage := ''Research failed'', errorSection := display_block,
        btn_disabled := False, btn_text := ''Try Again''\<rparr>, None)"
proof -
  have h: "\<not> btn_disabled completed_page" by code_simp
  have l: "btn_text completed_page = ''Analyze New Query''" by code_simp
  have s: "resultsSection completed_page = display_block" by code_simp
  have m: "get error_json ''message'' = Inr (Some (JStr ''Research failed'')) \<and>
           text_content (Some (JStr ''Research failed'')) = Some ''Research failed''"
    by code_simp
  have "snd (dispatch sample_builtins ''agent_log'' log_json completed_page) = None"
    by code_simp
  then have a: "dispatch sample_builtins ''agent_log'' log_json completed_page =
      (fst (dispatch sample_builtins ''agent_log'' log_json completed_page), None)"
    by (simp add: prod_eq_iff)
  note t = terminal_events_not_guarded[OF h, of sample_builtins "''error''" error_json
        "[frame ''agent_log'' log_text, frame ''error'' error_text]" False "[]"]
  note u = terminal_events_not_guarded[OF h, of sample_builtins "''agent_log''" log_json
        "[]" False "[]"]
  from u a have e: "\<exists>e. fst (dispatch sample_builtins ''agent_log'' log_json completed_page) =
         completed_page\<lparr>activityLogContent := activityLogContent completed_page @ [e]\<rparr>"
    by blast
  from t m have d: "dispatch sample_builtins ''error'' error_json completed_page =
     (completed_page\<lparr>errorMessage := ''Research failed'', errorSection := display_block,
        btn_disabled := False, btn_text := ''Try Again''\<rparr>, None)"
    by blast
  from t have b: "\<not> btn_disabled (settle (read_loop sample_builtins
       [frame ''agent_log'' log_text, frame ''error'' error_text] False [] completed_page))"
    by blast
  show ?thesis using l s b e d by blast
qed

text \<open>
  Against C9 as stated: a stream with a complete event leaves the button reading
  Analyze New Query and no error shown; the same stream followed by an error event
  leaves the button reading Try Again and the error banner shown with the message of
  that event, the result section still shown. In the other order the complete event
  relabels the button Analyze New Query and shows the result beside the banner.
\<close>

theorem later_terminal_event_counterexample:
  "btn_text (research sample_builtins (Stream True [frame ''complete'' complete_text] False)
      running_page) = ''Analyze New Query'' \<and>
   errorSection (research sample_builtins (Stream True [frame ''complete'' complete_text] False)
      running_page) = display_none \<and>
   btn_text (research sample_builtins
      (Stream True [frame ''complete'' complete_text, frame ''error'' error_text] False)
      running_page) = ''Try Again'' \<and>
   errorSection (research sample_builtins
      (Stream True [frame ''complete'' complete_text, frame ''error'' error_text] False)
      running_page) = display_block \<and>
   errorMessage (research sample_builtins
      (Stream True [frame ''complete'' complete_text, frame ''error'' error_text] False)
      running_page) = ''Research failed'' \<and>
   resultsSection (research sample_builtins
      (Stream True [frame ''complete'' complete_text, frame ''error'' error_text] False)
      running_page) = display_block \<and>
   btn_text (research sample_builtins
      (Stream True [frame ''error'' error_text, frame ''complete'' complete_text] False)
      running_page) = ''Analyze New Query'' \<and>
   errorSection (research sample_builtins
      (Stream True [frame ''error'' error_text, frame ''complete'' complete_text] False)
      running_page) = display_block \<and>
   resultsSection (research sample_builtins
      (Stream True [frame ''error'' error_text, frame ''complete'' complete_text] False)
      running_page) = display_block"
  by code_simp

end
